theory Spec2Isabelle
  imports Complex_Main "HOL-Library.Log_Nat"
begin

section \<open>Configuration (config.ts)\<close>

definition PART_SIZE :: nat where
  "PART_SIZE = 10 * 1024 * 1024"

definition MAX_CONCURRENT_UPLOADS :: nat where
  "MAX_CONCURRENT_UPLOADS = 5"

definition RETRY_ATTEMPTS :: nat where
  "RETRY_ATTEMPTS = 3"

definition RETRY_DELAY :: nat where
  "RETRY_DELAY = 1000"

definition S3_TRANSFER_ACCELERATION_ENABLED :: bool where
  "S3_TRANSFER_ACCELERATION_ENABLED = True"

definition S3_TRANSFER_ACCELERATION_MIN_SIZE :: nat where
  "S3_TRANSFER_ACCELERATION_MIN_SIZE = 512 * 1024 * 1024"

section \<open>Errors (errors.ts) and the exceptions of the platform\<close>

text \<open>
  The message of an exception is kept as the template the source builds it from,
  with the interpolated values as arguments. \<open>Platform_message\<close> is the text
  of an exception raised by the browser (a failed fetch, a failed IndexedDB
  request).
\<close>

datatype msg =
    Request_timed_out
  | Failed_to_initiate_multipart_upload
  | Failed_to_get_signed_URL
  | Failed_to_upload_part nat
  | No_ETag_received_for_part nat
  | Failed_to_complete_multipart_upload
  | Failed_to_cancel_multipart_upload
  | Failed_to_list_uploaded_parts
  | Upload_state_has_no_contentId
  | No_upload_state_found_to_resume
  | Platform_message string

text \<open>
  The classes of thrown values the code tells apart with \<open>instanceof\<close>:
  \<open>DOMException\<close> (with its \<open>name\<close>), \<open>RetryableError\<close>,
  \<open>FatalError\<close>, a plain \<open>Error\<close>, and the \<open>TypeError\<close> with
  which \<open>fetch\<close> rejects on a transport failure. Each of them is an
  \<open>Error\<close> instance, so \<open>error instanceof Error ? error.message : ...\<close>
  always takes the message.
\<close>

datatype exn =
    DOMException string msg
  | RetryableError msg
  | FatalError msg
  | Error msg
  | TypeError msg

fun message :: "exn \<Rightarrow> msg" where
  "message (DOMException n m) = m"
| "message (RetryableError m) = m"
| "message (FatalError m) = m"
| "message (Error m) = m"
| "message (TypeError m) = m"

fun instanceof_RetryableError :: "exn \<Rightarrow> bool" where
  "instanceof_RetryableError (RetryableError m) = True"
| "instanceof_RetryableError e = False"

text \<open>\<open>error instanceof DOMException && error.name === "AbortError"\<close>\<close>

fun is_AbortError :: "exn \<Rightarrow> bool" where
  "is_AbortError (DOMException n m) = (n = ''AbortError'')"
| "is_AbortError e = False"

definition AbortError :: exn where
  "AbortError = DOMException ''AbortError'' (Platform_message ''The operation was aborted'')"

section \<open>Data model (types.ts)\<close>

datatype UploadStatus =
  Pending | In_progress | Paused | Completed | Error_status | Cancelled | Not_found

text \<open>Byte counts and part numbers are natural numbers.\<close>

record UploadPart =
  partNumber :: nat
  eTag :: string
  part_size :: "nat option"

record File =
  file_name :: string
  file_size :: nat

text \<open>
  \<open>UploadState\<close>, without \<open>startTime\<close> (a wall-clock reading) and the
  fields the engine never writes (\<open>abortController\<close>, \<open>accelerated\<close>).
\<close>

record UploadState =
  state_id :: string
  source_file :: File
  fileName :: string
  fileSize :: nat
  uploadId :: string
  key :: string
  progress :: nat
  status :: UploadStatus
  parts :: "UploadPart list"
  error :: "msg option"
  fileUrl :: "string option"
  contentId :: "string option"
  partSize :: nat
  maxConcurrentUploads :: nat

record UploadChunk =
  chunk_id :: string
  chunk_uploadId :: string
  chunk_partNumber :: nat

record ChunkConfig =
  cfg_size :: nat
  cfg_concurrent :: nat

record InitiateUploadResponse =
  resp_uploadId :: string
  resp_key :: string
  resp_content_id :: string
  resp_accelerationEndpoint :: "string option"

text \<open>The two inbound messages that \<open>handleUpload\<close> receives.\<close>

datatype upload_message =
    START_UPLOAD File nat string "ChunkConfig option"
  | RESUME_UPLOAD string

text \<open>JavaScript truthiness of an optional string: absent and empty are falsy.\<close>

fun truthy :: "string option \<Rightarrow> bool" where
  "truthy None = False"
| "truthy (Some s) = (s \<noteq> [])"

section \<open>Outbound messages and the effects of a run\<close>

datatype log_level = Info | Warn | Err

text \<open>
  \<open>totalParts = Math.ceil(file.size / partSize)\<close> is a JavaScript number:
  a natural number when \<open>partSize > 0\<close>, \<open>Infinity\<close> when a non-empty file
  is divided by a part size of 0, \<open>NaN\<close> for \<open>0 / 0\<close>.
\<close>

datatype total = Finite nat | Infinity | NaN

datatype log_text =
    Starting_upload string
  | Resuming_upload string
  | Total_parts_to_upload total
  | Skipping_already_uploaded_part nat
  | Retrieved_uploaded_parts nat
  | Failed_to_retrieve_uploaded_parts msg
  | Completing_upload "string"
  | Upload_completed "string"
  | No_paused_upload_found string
  | Successfully_cancelled string
  | Error_cancelling string msg
  | Saving_upload_state "string option"
  | Successfully_saved "string option"
  | Error_saving msg
  | Loading_upload_state string
  | Successfully_loaded string
  | Error_loading msg

text \<open>
  The outbound messages the engine broadcasts. \<open>UPLOAD_COMPLETE\<close> is kept
  without its \<open>duration\<close> and \<open>averageSpeed\<close> (wall-clock readings);
  \<open>UPLOAD_ERROR\<close> always has the code \<open>UPLOAD_FAILED\<close>.
\<close>

datatype event =
    INITIATE_UPLOAD_RESPONSE string string string
  | UPLOAD_PROGRESS string nat nat nat
  | CHUNK_UPLOADED string nat nat
  | RETRYING_CHUNK string nat nat nat msg nat
  | UPLOAD_COMPLETE string string nat
  | UPLOAD_ERROR string msg bool
  | UPLOAD_PAUSED string
  | UPLOAD_CANCELLED string
  | LOG log_level log_text "string option"

text \<open>
  The requests of the control-plane client. \<open>PUT_part\<close> is the PUT of a part
  to its (possibly rewritten) signed URL; its first argument is the part
  number of the call that issued it.
\<close>

datatype request =
    POST_initiate string string nat nat bool
  | POST_signed_url nat string string bool
  | PUT_part nat string nat
  | POST_complete string string string "UploadPart list" bool
  | POST_cancel string string string bool
  | POST_list_parts string string

text \<open>
  Everything a run does that is visible from outside, in the order it happens:
  a message broadcast to the clients, a \<open>fetch\<close> call and the settling of its
  promise, and a \<open>setTimeout\<close> sleep.
\<close>

datatype effect =
    Broadcast event
  | Fetch request
  | Settled request
  | Sleep nat

section \<open>The environment and the state of the worker\<close>

text \<open>What the network does with a request: a response (with \<open>response.ok\<close>
  and its payload), no response before the timeout, or a transport failure.\<close>

datatype 'a reply = Reply bool 'a | NoReply | TransportError string

text \<open>
  The environment of a run. A reply is chosen by the position of the request
  among all \<open>fetch\<close> calls of the worker; \<open>token_fires n\<close> says that the
  cancel token attached to the \<open>n\<close>-th \<open>fetch\<close> call is fired (by a pause or
  cancel command) while that request is in flight; \<open>storage_failure n\<close> is the
  exception of the \<open>n\<close>-th IndexedDB operation, if it fails.
\<close>

record env =
  initiate_reply :: "nat \<Rightarrow> InitiateUploadResponse reply"
  signed_url_reply :: "nat \<Rightarrow> string reply"
  put_reply :: "nat \<Rightarrow> string option reply"
  complete_reply :: "nat \<Rightarrow> string reply"
  cancel_reply :: "nat \<Rightarrow> unit reply"
  list_parts_reply :: "nat \<Rightarrow> UploadPart list reply"
  token_fires :: "nat \<Rightarrow> bool"
  storage_failure :: "nat \<Rightarrow> exn option"
  randomUUID :: "nat \<Rightarrow> string"

text \<open>
  The state of the worker: the two IndexedDB object stores the engine uses,
  the \<open>UploadState\<close> objects (by reference: the registry and the part driver
  share one object), the registry \<open>activeUploads\<close> (content id to state
  reference and abort controller), the abort controllers that have been
  aborted, the \<open>accelerationEndpoint\<close> field of the one \<open>ApiClient\<close>, the
  effects so far, and counters.
\<close>

record world =
  uploads :: "string \<rightharpoonup> UploadState"
  chunks :: "UploadChunk list"
  heap :: "nat \<Rightarrow> UploadState"
  activeUploads :: "string \<rightharpoonup> nat \<times> nat"
  aborted :: "nat set"
  fresh :: nat
  accelerationEndpoint :: "string option"
  trace :: "effect list"
  n_fetch :: nat
  n_db :: nat
  n_uuid :: nat

definition emit :: "effect \<Rightarrow> world \<Rightarrow> world" where
  "emit e w = w\<lparr>trace := trace w @ [e]\<rparr>"

section \<open>logger.ts\<close>

definition broadcast :: "event \<Rightarrow> world \<Rightarrow> world" where
  "broadcast m w = emit (Broadcast m) w"

definition broadcastLog :: "log_text \<Rightarrow> log_level \<Rightarrow> string option \<Rightarrow> world \<Rightarrow> world" where
  "broadcastLog m level cid w = broadcast (LOG level m cid) w"

section \<open>databaseService.ts\<close>

text \<open>The next IndexedDB operation: its failure, if any, and the counter advanced.\<close>

definition db_request :: "env \<Rightarrow> world \<Rightarrow> exn option \<times> world" where
  "db_request en w = (storage_failure en (n_db w), w\<lparr>n_db := n_db w + 1\<rparr>)"

definition saveUploadState :: "env \<Rightarrow> UploadState \<Rightarrow> world \<Rightarrow> (exn + unit) \<times> world" where
  "saveUploadState en st w =
    (let w1 = broadcastLog (Saving_upload_state (contentId st)) Info None w in
     case db_request en w1 of
       (Some e, w2) \<Rightarrow>
         (Inl e, broadcastLog (Error_saving (message e)) Err (contentId st) w2)
     | (None, w2) \<Rightarrow>
         (Inr (),
          broadcastLog (Successfully_saved (contentId st)) Info None
            (w2\<lparr>uploads := (uploads w2)(state_id st \<mapsto> st)\<rparr>)))"

definition loadUploadState :: "env \<Rightarrow> string \<Rightarrow> world \<Rightarrow> (exn + UploadState option) \<times> world" where
  "loadUploadState en i w =
    (let w1 = broadcastLog (Loading_upload_state i) Info None w in
     case db_request en w1 of
       (Some e, w2) \<Rightarrow> (Inl e, broadcastLog (Error_loading (message e)) Err (Some i) w2)
     | (None, w2) \<Rightarrow> (Inr (uploads w2 i), broadcastLog (Successfully_loaded i) Info None w2))"

definition loadChunks :: "env \<Rightarrow> string \<Rightarrow> world \<Rightarrow> (exn + UploadChunk list) \<times> world" where
  "loadChunks en uid w =
    (case db_request en w of
       (Some e, w1) \<Rightarrow> (Inl e, w1)
     | (None, w1) \<Rightarrow> (Inr (filter (\<lambda>c. chunk_uploadId c = uid) (chunks w1)), w1))"

definition deleteUploadState :: "env \<Rightarrow> string \<Rightarrow> world \<Rightarrow> (exn + unit) \<times> world" where
  "deleteUploadState en cid w =
    (case db_request en w of
       (Some e, w1) \<Rightarrow> (Inl e, w1)
     | (None, w1) \<Rightarrow> (Inr (), w1\<lparr>uploads := (uploads w1)(cid := None)\<rparr>))"

definition deleteChunks :: "env \<Rightarrow> string \<Rightarrow> world \<Rightarrow> (exn + unit) \<times> world" where
  "deleteChunks en uid w =
    (case db_request en w of
       (Some e, w1) \<Rightarrow> (Inl e, w1)
     | (None, w1) \<Rightarrow>
         (Inr (), w1\<lparr>chunks := filter (\<lambda>c. chunk_uploadId c \<noteq> uid) (chunks w1)\<rparr>))"

section \<open>apiClient.ts\<close>

text \<open>\<open>shouldUseAcceleration\<close>: only sets the \<open>useAcceleration\<close> flag of the
  initiate request.\<close>

definition shouldUseAcceleration :: "nat \<Rightarrow> bool" where
  "shouldUseAcceleration fsize =
    (S3_TRANSFER_ACCELERATION_ENABLED \<and> fsize \<ge> S3_TRANSFER_ACCELERATION_MIN_SIZE)"

subsection \<open>\<open>transformToAcceleratedUrl\<close>\<close>

text \<open>
  A match of \<open>/\.s3\.([^.]+)\.amazonaws\.com/\<close> at the start of a string:
  the text \<open>.s3.\<close>, the longest run of characters other than a dot (not
  empty), the text \<open>.amazonaws.com\<close>. The result is the captured group and
  the rest of the string after the match.
\<close>

definition match_here :: "string \<Rightarrow> (string \<times> string) option" where
  "match_here s =
    (if take 4 s = ''.s3.'' then
       (let t = drop 4 s;
            region = takeWhile (\<lambda>c. c \<noteq> CHR ''.'') t;
            u = dropWhile (\<lambda>c. c \<noteq> CHR ''.'') t
        in if region \<noteq> [] \<and> take 14 u = ''.amazonaws.com''
           then Some (region, drop 14 u) else None)
     else None)"

text \<open>The leftmost match: the text before it, the captured group, the text after it.\<close>

fun find_match :: "string \<Rightarrow> string \<Rightarrow> (string \<times> string \<times> string) option" where
  "find_match pre [] = None"
| "find_match pre (c # cs) =
    (case match_here (c # cs) of
       Some (region, rest) \<Rightarrow> Some (pre, region, rest)
     | None \<Rightarrow> find_match (pre @ [c]) cs)"

text \<open>
  The replacement patterns of \<open>String.prototype.replace\<close> for a regular
  expression with one capturing group: \<open>$$\<close>, \<open>$&\<close>, \<open>$`\<close>, \<open>$'\<close>,
  \<open>$1\<close> and \<open>$01\<close>; any other text stands for itself.
\<close>

fun substitution :: "string \<Rightarrow> string \<Rightarrow> string \<Rightarrow> string \<Rightarrow> string \<Rightarrow> string" where
  "substitution matched region pre rest [] = []"
| "substitution matched region pre rest [c] = [c]"
| "substitution matched region pre rest (c # d # cs) =
    (if c = CHR ''$'' then
       (if d = CHR ''$'' then CHR ''$'' # substitution matched region pre rest cs
        else if d = CHR ''&'' then matched @ substitution matched region pre rest cs
        else if d = CHR 0x60 then pre @ substitution matched region pre rest cs
        else if d = CHR 0x27 then rest @ substitution matched region pre rest cs
        else if d = CHR ''1'' then region @ substitution matched region pre rest cs
        else if d = CHR ''0'' \<and> take 1 cs = ''1''
          then region @ substitution matched region pre rest (drop 1 cs)
        else c # substitution matched region pre rest (d # cs))
     else c # substitution matched region pre rest (d # cs))"

text \<open>\<open>url.replace(/\.s3\.([^.]+)\.amazonaws\.com/, `.${endpoint}`)\<close>: the
  leftmost match only (the expression has no \<open>g\<close> flag).\<close>

definition replace_s3_host :: "string \<Rightarrow> string \<Rightarrow> string" where
  "replace_s3_host endpoint url =
    (case find_match [] url of
       None \<Rightarrow> url
     | Some (pre, region, rest) \<Rightarrow>
         pre
         @ substitution (''.s3.'' @ region @ ''.amazonaws.com'') region pre rest
             (CHR ''.'' # endpoint)
         @ rest)"

definition transformToAcceleratedUrl :: "string option \<Rightarrow> string \<Rightarrow> string" where
  "transformToAcceleratedUrl endpoint url =
    (if \<not> truthy endpoint then url else replace_s3_host (the endpoint) url)"

subsection \<open>\<open>fetchWithTimeout\<close> and \<open>fetchWithRetry\<close>\<close>

text \<open>
  The promise of \<open>fetch(url, {...options, signal})\<close>, where \<open>signal\<close>
  combines the controller of the timeout with the cancel token of the upload
  (when one is passed). It rejects with an \<open>AbortError\<close> when the combined
  signal is aborted: the token was already fired, the token fires while the
  request is in flight, or the timer of the timeout fires first because no
  response came. A transport failure rejects with a \<open>TypeError\<close>.
\<close>

definition fetch :: "env \<Rightarrow> (nat \<Rightarrow> 'a reply) \<Rightarrow> nat option \<Rightarrow> world \<Rightarrow> (exn + bool \<times> 'a) \<times> world" where
  "fetch en oracle abortSignal w =
    (let n = n_fetch w; w1 = w\<lparr>n_fetch := n + 1\<rparr>;
         by_network =
           (case oracle n of
              Reply ok payload \<Rightarrow> Inr (ok, payload)
            | NoReply \<Rightarrow> Inl AbortError
            | TransportError m \<Rightarrow> Inl (TypeError (Platform_message m)))
     in case abortSignal of
          None \<Rightarrow> (by_network, w1)
        | Some c \<Rightarrow>
            if c \<in> aborted w1 then (Inl AbortError, w1)
            else if token_fires en n then (Inl AbortError, w1\<lparr>aborted := insert c (aborted w1)\<rparr>)
            else (by_network, w1))"

definition fetchWithTimeout ::
  "env \<Rightarrow> request \<Rightarrow> (nat \<Rightarrow> 'a reply) \<Rightarrow> nat option \<Rightarrow> world \<Rightarrow> (exn + bool \<times> 'a) \<times> world" where
  "fetchWithTimeout en req oracle abortSignal w =
    (case fetch en oracle abortSignal (emit (Fetch req) w) of
       (Inr response, w1) \<Rightarrow> (Inr response, emit (Settled req) w1)
     | (Inl e, w1) \<Rightarrow>
         if is_AbortError e
         then (Inl (RetryableError Request_timed_out), emit (Settled req) w1)
         else (Inl e, emit (Settled req) w1))"

fun fetchWithRetry ::
  "env \<Rightarrow> request \<Rightarrow> (nat \<Rightarrow> 'a reply) \<Rightarrow> nat \<Rightarrow> nat option \<Rightarrow> world \<Rightarrow> (exn + bool \<times> 'a) \<times> world" where
  "fetchWithRetry en req oracle retries abortSignal w =
    (case fetchWithTimeout en req oracle abortSignal w of
       (Inr response, w1) \<Rightarrow> (Inr response, w1)
     | (Inl e, w1) \<Rightarrow>
         if retries > 0 \<and> instanceof_RetryableError e
         then fetchWithRetry en req oracle (retries - 1) abortSignal (emit (Sleep RETRY_DELAY) w1)
         else (Inl e, w1))"

subsection \<open>The operations of the client\<close>

definition initiateMultipartUpload ::
  "env \<Rightarrow> File \<Rightarrow> nat \<Rightarrow> string \<Rightarrow> world \<Rightarrow> (exn + InitiateUploadResponse) \<times> world" where
  "initiateMultipartUpload en f videoDuration fileType w =
    (let useAcceleration = shouldUseAcceleration (file_size f) in
     case fetchWithRetry en
            (POST_initiate (file_name f) fileType (file_size f) videoDuration useAcceleration)
            (initiate_reply en) RETRY_ATTEMPTS None w of
       (Inl e, w1) \<Rightarrow> (Inl e, w1)
     | (Inr (ok, data), w1) \<Rightarrow>
         if \<not> ok then (Inl (FatalError Failed_to_initiate_multipart_upload), w1)
         else if truthy (resp_accelerationEndpoint data)
           then (Inr data, w1\<lparr>accelerationEndpoint := resp_accelerationEndpoint data\<rparr>)
           else (Inr data, w1))"

definition getSignedUrl :: "env \<Rightarrow> nat \<Rightarrow> string \<Rightarrow> string \<Rightarrow> world \<Rightarrow> (exn + string) \<times> world" where
  "getSignedUrl en pn uid ky w =
    (case fetchWithRetry en (POST_signed_url pn uid ky (truthy (accelerationEndpoint w)))
            (signed_url_reply en) RETRY_ATTEMPTS None w of
       (Inl e, w1) \<Rightarrow> (Inl e, w1)
     | (Inr (ok, signedUrl), w1) \<Rightarrow>
         if \<not> ok then (Inl (RetryableError Failed_to_get_signed_URL), w1)
         else (Inr signedUrl, w1))"

text \<open>\<open>ApiClient.uploadPart\<close>; the chunk is given by its size.\<close>

definition api_uploadPart ::
  "env \<Rightarrow> string \<Rightarrow> string \<Rightarrow> nat \<Rightarrow> nat \<Rightarrow> nat option \<Rightarrow> world \<Rightarrow> (exn + UploadPart) \<times> world" where
  "api_uploadPart en ky uid pn chunk_size abortSignal w =
    (case getSignedUrl en pn uid ky w of
       (Inl e, w1) \<Rightarrow> (Inl e, w1)
     | (Inr signedUrl, w1) \<Rightarrow>
         (let uploadUrl = transformToAcceleratedUrl (accelerationEndpoint w1) signedUrl in
          case fetchWithRetry en (PUT_part pn uploadUrl chunk_size) (put_reply en)
                 RETRY_ATTEMPTS abortSignal w1 of
            (Inl e, w2) \<Rightarrow> (Inl e, w2)
          | (Inr (ok, etag_header), w2) \<Rightarrow>
              if \<not> ok then (Inl (RetryableError (Failed_to_upload_part pn)), w2)
              else if \<not> truthy etag_header then (Inl (Error (No_ETag_received_for_part pn)), w2)
              else (Inr \<lparr>partNumber = pn,
                         eTag = filter (\<lambda>c. c \<noteq> CHR 0x22) (the etag_header),
                         part_size = Some chunk_size\<rparr>, w2)))"

definition completeMultipartUpload ::
  "env \<Rightarrow> string \<Rightarrow> string \<Rightarrow> string \<Rightarrow> UploadPart list \<Rightarrow> world \<Rightarrow> (exn + string) \<times> world" where
  "completeMultipartUpload en ky uid cid ps w =
    (case fetchWithRetry en (POST_complete ky uid cid ps (truthy (accelerationEndpoint w)))
            (complete_reply en) RETRY_ATTEMPTS None w of
       (Inl e, w1) \<Rightarrow> (Inl e, w1)
     | (Inr (ok, location), w1) \<Rightarrow>
         if \<not> ok then (Inl (FatalError Failed_to_complete_multipart_upload), w1)
         else (Inr location, w1))"

definition cancelUpload :: "env \<Rightarrow> string \<Rightarrow> string \<Rightarrow> string \<Rightarrow> world \<Rightarrow> (exn + unit) \<times> world" where
  "cancelUpload en ky uid cid w =
    (case fetchWithRetry en (POST_cancel ky uid cid (truthy (accelerationEndpoint w)))
            (cancel_reply en) RETRY_ATTEMPTS None w of
       (Inl e, w1) \<Rightarrow> (Inl e, w1)
     | (Inr (ok, u), w1) \<Rightarrow>
         if \<not> ok then (Inl (RetryableError Failed_to_cancel_multipart_upload), w1)
         else (Inr (), w1))"

definition listUploadedParts :: "env \<Rightarrow> string \<Rightarrow> string \<Rightarrow> world \<Rightarrow> (exn + UploadPart list) \<times> world" where
  "listUploadedParts en ky uid w =
    (case fetchWithRetry en (POST_list_parts ky uid) (list_parts_reply en) RETRY_ATTEMPTS None w of
       (Inl e, w1) \<Rightarrow> (Inl e, w1)
     | (Inr (ok, ps), w1) \<Rightarrow>
         if \<not> ok then (Inl (RetryableError Failed_to_list_uploaded_parts), w1)
         else (Inr ps, w1))"

section \<open>uploadHandler.ts\<close>

text \<open>Mutation of an \<open>UploadState\<close> object, and the allocation of a new
  object or abort controller.\<close>

definition update_state :: "nat \<Rightarrow> (UploadState \<Rightarrow> UploadState) \<Rightarrow> world \<Rightarrow> world" where
  "update_state ref f w = w\<lparr>heap := (heap w)(ref := f (heap w ref))\<rparr>"

definition new_object :: "UploadState \<Rightarrow> world \<Rightarrow> nat \<times> world" where
  "new_object st w = (fresh w, w\<lparr>heap := (heap w)(fresh w := st), fresh := fresh w + 1\<rparr>)"

definition new_AbortController :: "world \<Rightarrow> nat \<times> world" where
  "new_AbortController w = (fresh w, w\<lparr>fresh := fresh w + 1\<rparr>)"

definition abort :: "nat \<Rightarrow> world \<Rightarrow> world" where
  "abort c w = w\<lparr>aborted := insert c (aborted w)\<rparr>"

definition activeUploads_delete :: "string \<Rightarrow> world \<Rightarrow> world" where
  "activeUploads_delete cid w = w\<lparr>activeUploads := (activeUploads w)(cid := None)\<rparr>"

subsection \<open>\<open>initializeNewUpload\<close> and \<open>getUploadStateForResume\<close>\<close>

definition initializeNewUpload ::
  "env \<Rightarrow> File \<Rightarrow> nat \<Rightarrow> string \<Rightarrow> ChunkConfig option \<Rightarrow> world \<Rightarrow> (exn + UploadState) \<times> world" where
  "initializeNewUpload en f duration fileType chunkConfig w =
    (let cid = randomUUID en (n_uuid w);
         w1 = broadcastLog (Starting_upload cid) Info None (w\<lparr>n_uuid := n_uuid w + 1\<rparr>)
     in case initiateMultipartUpload en f duration fileType w1 of
          (Inl e, w2) \<Rightarrow> (Inl e, w2)
        | (Inr response, w2) \<Rightarrow>
            (let w3 = broadcast
                        (INITIATE_UPLOAD_RESPONSE cid (resp_uploadId response) (resp_key response)) w2;
                 psize = (case chunkConfig of None \<Rightarrow> PART_SIZE | Some c \<Rightarrow> cfg_size c);
                 maxc = (case chunkConfig of None \<Rightarrow> MAX_CONCURRENT_UPLOADS
                         | Some c \<Rightarrow> cfg_concurrent c)
             in (Inr \<lparr>state_id = resp_content_id response,
                      source_file = f,
                      fileName = file_name f,
                      fileSize = file_size f,
                      uploadId = resp_uploadId response,
                      key = resp_key response,
                      progress = 0,
                      status = In_progress,
                      parts = [],
                      error = None,
                      fileUrl = None,
                      contentId = Some (resp_content_id response),
                      partSize = psize,
                      maxConcurrentUploads = maxc\<rparr>, w3)))"

definition getUploadStateForResume :: "env \<Rightarrow> string \<Rightarrow> world \<Rightarrow> (exn + UploadState) \<times> world" where
  "getUploadStateForResume en cid w =
    (case loadUploadState en cid w of
       (Inl e, w1) \<Rightarrow> (Inl e, w1)
     | (Inr None, w1) \<Rightarrow> (Inl (Error No_upload_state_found_to_resume), w1)
     | (Inr (Some st), w1) \<Rightarrow> (Inr st, broadcastLog (Resuming_upload (uploadId st)) Info None w1))"

subsection \<open>\<open>getUploadedParts\<close>, \<open>uploadPart\<close>, \<open>broadcastProgress\<close>\<close>

definition getUploadedParts :: "env \<Rightarrow> UploadState \<Rightarrow> world \<Rightarrow> UploadPart list \<times> world" where
  "getUploadedParts en st w =
    (case listUploadedParts en (key st) (uploadId st) w of
       (Inr ps, w1) \<Rightarrow> (ps, broadcastLog (Retrieved_uploaded_parts (length ps)) Info None w1)
     | (Inl e, w1) \<Rightarrow>
         ([], broadcastLog (Failed_to_retrieve_uploaded_parts (message e)) Err None w1))"

function uploadPart ::
  "env \<Rightarrow> string \<Rightarrow> string \<Rightarrow> string \<Rightarrow> nat \<Rightarrow> nat \<Rightarrow> nat option \<Rightarrow> nat \<Rightarrow> world
    \<Rightarrow> (exn + UploadPart) \<times> world" where
  "uploadPart en cid ky uid pn chunk_size abortSignal retryCount w =
    (case api_uploadPart en ky uid pn chunk_size abortSignal w of
       (Inr part, w1) \<Rightarrow>
         (Inr \<lparr>partNumber = pn, eTag = eTag part, part_size = Some chunk_size\<rparr>,
          broadcast (CHUNK_UPLOADED cid pn chunk_size) w1)
     | (Inl e, w1) \<Rightarrow>
         if retryCount < RETRY_ATTEMPTS \<and> instanceof_RetryableError e \<and> \<not> is_AbortError e
         then (let delay = min (1000 * 2 ^ retryCount) 30000;
                   w2 = broadcast
                          (RETRYING_CHUNK cid pn (retryCount + 1) RETRY_ATTEMPTS (message e) delay) w1;
                   w3 = emit (Sleep delay) w2
               in uploadPart en cid ky uid pn chunk_size abortSignal (retryCount + 1) w3)
         else (Inl e, w1))"
  by pat_completeness auto
termination
  by (relation "measure (\<lambda>(en, cid, ky, uid, pn, chunk_size, abortSignal, retryCount, w).
        RETRY_ATTEMPTS - retryCount)") auto

definition broadcastProgress :: "string \<Rightarrow> nat \<Rightarrow> nat \<Rightarrow> UploadState \<Rightarrow> world \<Rightarrow> world" where
  "broadcastProgress cid prog completedParts st w =
    broadcast (UPLOAD_PROGRESS cid prog (completedParts * partSize st) (fileSize st)) w"

subsection \<open>\<open>handleUploadError\<close> and \<open>completeUpload\<close>\<close>

definition handleUploadError :: "env \<Rightarrow> string \<Rightarrow> exn \<Rightarrow> world \<Rightarrow> (exn + unit) \<times> world" where
  "handleUploadError en cid e w =
    (let w1 = broadcast (UPLOAD_ERROR cid (message e) (instanceof_RetryableError e)) w in
     case activeUploads w1 cid of
       None \<Rightarrow> (Inr (), w1)
     | Some (ref, ctl) \<Rightarrow>
         (let w2 = update_state ref (\<lambda>st. st\<lparr>status := Error_status, error := Some (message e)\<rparr>) w1
          in case saveUploadState en (heap w2 ref) w2 of
               (Inl e', w3) \<Rightarrow> (Inl e', w3)
             | (Inr u, w3) \<Rightarrow> (Inr (), activeUploads_delete cid w3)))"

definition completeUpload :: "env \<Rightarrow> nat \<Rightarrow> world \<Rightarrow> (exn + unit) \<times> world" where
  "completeUpload en ref w =
    (let st = heap w ref in
     if \<not> truthy (contentId st) then (Inl (Error Upload_state_has_no_contentId), w)
     else
       (let cid = the (contentId st);
            w1 = broadcastLog (Completing_upload cid) Info None w
        in case completeMultipartUpload en (key st) (uploadId st) cid (parts st) w1 of
             (Inl e, w2) \<Rightarrow> (Inl e, w2)
           | (Inr location, w2) \<Rightarrow>
               (let w3 = update_state ref
                           (\<lambda>s. s\<lparr>status := Completed, fileUrl := Some location\<rparr>) w2
                in case saveUploadState en (heap w3 ref) w3 of
                     (Inl e, w4) \<Rightarrow> (Inl e, w4)
                   | (Inr u, w4) \<Rightarrow>
                       (let w5 = broadcast (UPLOAD_COMPLETE cid location (fileSize st)) w4;
                            w6 = activeUploads_delete cid w5
                        in (Inr (), broadcastLog (Upload_completed cid) Info None w6)))))"

subsection \<open>\<open>uploadParts\<close>\<close>

definition total_parts :: "nat \<Rightarrow> nat \<Rightarrow> total" where
  "total_parts fsize psize =
    (if psize = 0 then (if fsize = 0 then NaN else Infinity)
     else Finite ((fsize + psize - 1) div psize))"

text \<open>The loop test \<open>partNumber <= totalParts\<close>.\<close>

fun part_within :: "nat \<Rightarrow> total \<Rightarrow> bool" where
  "part_within pn (Finite n) = (pn \<le> n)"
| "part_within pn Infinity = True"
| "part_within pn NaN = False"

text \<open>
  A JavaScript number is an IEEE 754 double, and \<open>/\<close> and \<open>*\<close> give the
  double nearest to the exact result, a tie going to the double with an even
  significand. A double is modelled by the real number it stands for.
  \<open>round_half_even x\<close> is the integer nearest to \<open>x\<close>, a tie going to the even
  one; \<open>binade q\<close> is the exponent \<open>e\<close> with \<open>2 ^ e \<le> q < 2 ^ (e + 1)\<close> of a positive
  \<open>q\<close>; \<open>Number_value q\<close> is the double nearest to \<open>q \<ge> 0\<close>, which has a
  significand of 53 bits. The range of the exponent is not modelled: the
  numbers that occur are quotients and products of counts below \<open>2 ^ 53\<close>, far
  from overflow and underflow.
\<close>

definition round_half_even :: "real \<Rightarrow> int" where
  "round_half_even x =
    (let f = \<lfloor>x\<rfloor>; r = x - of_int f
     in if r < 1 / 2 then f else if 1 / 2 < r then f + 1
        else if even f then f else f + 1)"

definition binade :: "real \<Rightarrow> int" where
  "binade q = (if 1 \<le> q then bitlen \<lfloor>q\<rfloor> - 1 else - bitlen (\<lceil>1 / q\<rceil> - 1))"

definition Number_value :: "real \<Rightarrow> real" where
  "Number_value q =
    (if q = 0 then 0
     else (let ulp = 2 powi (binade q - 52) in of_int (round_half_even (q / ulp)) * ulp))"

text \<open>\<open>Math.round\<close>: the nearest integer, a tie going upwards.\<close>

definition Math_round :: "real \<Rightarrow> int" where
  "Math_round x = \<lfloor>x + 1 / 2\<rfloor>"

text \<open>
  \<open>Math.round((completedParts / totalParts) * 100)\<close>: the quotient is rounded
  to a double, the product with 100 is rounded to a double, and
  \<open>Math.round\<close> is applied to that. A quotient by \<open>Infinity\<close> is 0. The loop
  body does not run when \<open>totalParts\<close> is 0 or \<open>NaN\<close>, so the value given
  for them is never used.
\<close>

fun progress_percent :: "nat \<Rightarrow> total \<Rightarrow> nat" where
  "progress_percent c (Finite n) =
    (if n = 0 then 0
     else nat (Math_round (Number_value (Number_value (real c / real n) * 100))))"
| "progress_percent c Infinity = 0"
| "progress_percent c NaN = 0"

text \<open>
  One pass through the body of the \<open>for\<close> loop of \<open>uploadParts\<close>, for the
  part number \<open>pn\<close>. \<open>st0\<close> holds the fields that \<open>uploadParts\<close> reads from
  the state once, before the loop. The result is the new value of
  \<open>completedParts\<close>, or the exception that leaves the loop.
\<close>

definition uploadParts_body ::
  "env \<Rightarrow> nat \<Rightarrow> nat \<Rightarrow> UploadState \<Rightarrow> string \<Rightarrow> total \<Rightarrow> nat set \<Rightarrow> nat \<Rightarrow> nat \<Rightarrow> world
    \<Rightarrow> (exn + nat) \<times> world" where
  "uploadParts_body en ref ctl st0 cid totalParts uploadedPartNumbers pn completedParts w =
    (if pn \<in> uploadedPartNumbers
     then (Inr completedParts, broadcastLog (Skipping_already_uploaded_part pn) Info None w)
     else
       (let start = (pn - 1) * partSize st0;
            end_pos = min (start + partSize st0) (file_size (source_file st0));
            chunk_size = end_pos - start;
            caught = (\<lambda>e w'. case handleUploadError en cid e w' of
                               (Inl e', w'') \<Rightarrow> (Inl e', w'')
                             | (Inr u, w'') \<Rightarrow> (Inl e, w''))
        in case uploadPart en cid (key st0) (uploadId st0) pn chunk_size (Some ctl) 0 w of
             (Inl e, w1) \<Rightarrow> caught e w1
           | (Inr part, w1) \<Rightarrow>
               (let w2 = update_state ref (\<lambda>s. s\<lparr>parts := parts s @ [part]\<rparr>) w1;
                    completedParts' = completedParts + 1;
                    prog = progress_percent completedParts' totalParts;
                    w3 = update_state ref (\<lambda>s. s\<lparr>progress := prog\<rparr>) w2
                in case saveUploadState en (heap w3 ref) w3 of
                     (Inl e, w4) \<Rightarrow> caught e w4
                   | (Inr u, w4) \<Rightarrow>
                       (Inr completedParts',
                        broadcastProgress cid prog completedParts' (heap w4 ref) w4))))"

text \<open>The \<open>for\<close> loop from part number \<open>pn\<close> on. With \<open>totalParts = Infinity\<close>
  it ends only by an exception, so the loop is a partial function.\<close>

partial_function (option) uploadParts_loop ::
  "env \<Rightarrow> nat \<Rightarrow> nat \<Rightarrow> UploadState \<Rightarrow> string \<Rightarrow> total \<Rightarrow> nat set \<Rightarrow> nat \<Rightarrow> nat \<Rightarrow> world
    \<Rightarrow> ((exn + unit) \<times> world) option" where
  "uploadParts_loop en ref ctl st0 cid totalParts uploadedPartNumbers pn completedParts w =
    (if part_within pn totalParts then
       (case uploadParts_body en ref ctl st0 cid totalParts uploadedPartNumbers pn completedParts w of
          (Inl e, w1) \<Rightarrow> Some (Inl e, w1)
        | (Inr completedParts', w1) \<Rightarrow>
            uploadParts_loop en ref ctl st0 cid totalParts uploadedPartNumbers (pn + 1)
              completedParts' w1)
     else Some (Inr (), w))"

declare uploadParts_loop.simps [code]

definition uploadParts :: "env \<Rightarrow> nat \<Rightarrow> nat \<Rightarrow> world \<Rightarrow> ((exn + unit) \<times> world) option" where
  "uploadParts en ref ctl w =
    (let st0 = heap w ref in
     if \<not> truthy (contentId st0) then Some (Inl (Error Upload_state_has_no_contentId), w)
     else
       (let cid = the (contentId st0);
            totalParts = total_parts (file_size (source_file st0)) (partSize st0);
            w1 = broadcastLog (Total_parts_to_upload totalParts) Info None w;
            (uploadedParts, w2) = getUploadedParts en st0 w1;
            uploadedPartNumbers = set (map partNumber uploadedParts);
            completedParts = length uploadedParts
        in case uploadParts_loop en ref ctl st0 cid totalParts uploadedPartNumbers 1
                  completedParts w2 of
             None \<Rightarrow> None
           | Some (Inl e, w3) \<Rightarrow> Some (Inl e, w3)
           | Some (Inr u, w3) \<Rightarrow> Some (completeUpload en ref w3)))"

subsection \<open>The command handlers\<close>

definition handleUpload :: "env \<Rightarrow> upload_message \<Rightarrow> world \<Rightarrow> ((exn + unit) \<times> world) option" where
  "handleUpload en m w =
    (case (case m of
             RESUME_UPLOAD cid \<Rightarrow> getUploadStateForResume en cid w
           | START_UPLOAD f duration fileType chunkConfig \<Rightarrow>
               initializeNewUpload en f duration fileType chunkConfig w) of
       (Inl e, w1) \<Rightarrow> Some (Inl e, w1)
     | (Inr uploadState, w1) \<Rightarrow>
         if \<not> truthy (contentId uploadState)
         then Some (Inl (Error Upload_state_has_no_contentId), w1)
         else
           (let (ref, w2) = new_object uploadState w1;
                (ctl, w3) = new_AbortController w2;
                w4 = w3\<lparr>activeUploads := (activeUploads w3)(the (contentId uploadState) \<mapsto> (ref, ctl))\<rparr>
            in case saveUploadState en (heap w4 ref) w4 of
                 (Inl e, w5) \<Rightarrow> Some (Inl e, w5)
               | (Inr u, w5) \<Rightarrow> uploadParts en ref ctl w5))"

definition handlePause :: "env \<Rightarrow> string \<Rightarrow> world \<Rightarrow> (exn + unit) \<times> world" where
  "handlePause en cid w =
    (case activeUploads w cid of
       None \<Rightarrow> (Inr (), w)
     | Some (ref, ctl) \<Rightarrow>
         (let w1 = abort ctl w;
              w2 = update_state ref (\<lambda>s. s\<lparr>status := Paused\<rparr>) w1
          in case saveUploadState en (heap w2 ref) w2 of
               (Inl e, w3) \<Rightarrow> (Inl e, w3)
             | (Inr u, w3) \<Rightarrow>
                 (Inr (), activeUploads_delete cid (broadcast (UPLOAD_PAUSED cid) w3))))"

definition handleResume :: "env \<Rightarrow> string \<Rightarrow> world \<Rightarrow> ((exn + unit) \<times> world) option" where
  "handleResume en cid w =
    (let caught = (\<lambda>e w'. Some (handleUploadError en cid e w')) in
     case loadUploadState en cid w of
       (Inl e, w1) \<Rightarrow> caught e w1
     | (Inr None, w1) \<Rightarrow> Some (Inr (), broadcastLog (No_paused_upload_found cid) Err None w1)
     | (Inr (Some uploadState), w1) \<Rightarrow>
         if status uploadState \<noteq> Paused
         then Some (Inr (), broadcastLog (No_paused_upload_found cid) Err None w1)
         else
           (case saveUploadState en (uploadState\<lparr>status := In_progress\<rparr>) w1 of
              (Inl e, w2) \<Rightarrow> caught e w2
            | (Inr u, w2) \<Rightarrow>
                (case handleUpload en (RESUME_UPLOAD cid) w2 of
                   None \<Rightarrow> None
                 | Some (Inl e, w3) \<Rightarrow> caught e w3
                 | Some (Inr u, w3) \<Rightarrow> Some (Inr (), w3))))"

definition handleCancel :: "env \<Rightarrow> string \<Rightarrow> world \<Rightarrow> (exn + unit) \<times> world" where
  "handleCancel en cid w =
    (case activeUploads w cid of
       None \<Rightarrow> (Inr (), w)
     | Some (ref, ctl) \<Rightarrow>
         (let w1 = abort ctl w in
          case deleteUploadState en cid w1 of
            (Inl e, w2) \<Rightarrow> (Inl e, w2)
          | (Inr u, w2) \<Rightarrow>
              (case deleteChunks en (uploadId (heap w2 ref)) w2 of
                 (Inl e, w3) \<Rightarrow> (Inl e, w3)
               | (Inr u, w3) \<Rightarrow>
                   (let w5 = (case cancelUpload en (key (heap w3 ref)) (uploadId (heap w3 ref)) cid w3 of
                                (Inr u, w4) \<Rightarrow> broadcastLog (Successfully_cancelled cid) Info None w4
                              | (Inl e, w4) \<Rightarrow>
                                  broadcastLog (Error_cancelling cid (message e)) Err None w4)
                    in (Inr (), activeUploads_delete cid (broadcast (UPLOAD_CANCELLED cid) w5))))))"

section \<open>Observations on the effects of a run\<close>

text \<open>The effects between an earlier and a later state of the worker.\<close>

definition effects_since :: "world \<Rightarrow> world \<Rightarrow> effect list" where
  "effects_since w w' = drop (length (trace w)) (trace w')"

text \<open>The retries that \<open>RETRYING_CHUNK\<close> messages announce: attempt number and
  \<open>nextAttemptDelay\<close>, in the order of the messages.\<close>

fun retry_announced :: "effect \<Rightarrow> (nat \<times> nat) option" where
  "retry_announced (Broadcast (RETRYING_CHUNK cid pn attempt maxAttempts err delay)) = Some (attempt, delay)"
| "retry_announced e = None"

definition retry_schedule :: "effect list \<Rightarrow> (nat \<times> nat) list" where
  "retry_schedule es =
    concat (map (\<lambda>e. case retry_announced e of None \<Rightarrow> [] | Some x \<Rightarrow> [x]) es)"

text \<open>Every announced retry is followed at once by a sleep of the announced
  delay and then by the request of a signed URL for the same part (the start
  of the next attempt).\<close>

fun requests_signed_url :: "nat \<Rightarrow> effect \<Rightarrow> bool" where
  "requests_signed_url pn (Fetch (POST_signed_url p uid ky acc)) = (p = pn)"
| "requests_signed_url pn e = False"

primrec slept_then_retried :: "nat \<Rightarrow> effect list \<Rightarrow> bool" where
  "slept_then_retried pn [] = True"
| "slept_then_retried pn (e # es) =
    ((case retry_announced e of
        None \<Rightarrow> True
      | Some (attempt, delay) \<Rightarrow>
          take 1 es = [Sleep delay] \<and> map (requests_signed_url pn) (take 1 (drop 1 es)) = [True])
     \<and> slept_then_retried pn es)"

text \<open>
  The form of the effects of a sequential run: every \<open>fetch\<close> is settled
  before anything else happens, all requests satisfy \<open>P\<close> and all messages
  satisfy \<open>B\<close>.
\<close>

fun for_part :: "nat \<Rightarrow> request \<Rightarrow> bool" where
  "for_part pn (POST_signed_url p uid ky acc) = (p = pn)"
| "for_part pn (PUT_part p url sz) = (p = pn)"
| "for_part pn r = False"

fun shape :: "(request \<Rightarrow> bool) \<Rightarrow> (event \<Rightarrow> bool) \<Rightarrow> effect list \<Rightarrow> bool" where
  "shape P B [] = True"
| "shape P B (Sleep d # es) = shape P B es"
| "shape P B (Broadcast m # es) = (B m \<and> shape P B es)"
| "shape P B (Fetch r # Settled r' # es) = (r = r' \<and> P r \<and> shape P B es)"
| "shape P B es = False"

fun part_event :: "nat \<Rightarrow> event \<Rightarrow> bool" where
  "part_event pn (CHUNK_UPLOADED cid p sz) = (p = pn)"
| "part_event pn (RETRYING_CHUNK cid p a m t d) = (p = pn)"
| "part_event pn m = False"

text \<open>The \<open>k\<close>-th retry with its delay.\<close>

definition backoff :: "nat \<Rightarrow> nat \<times> nat" where
  "backoff k = (k, min (1000 * 2 ^ (k - 1)) 30000)"

text \<open>
  What a run of the part driver shows of its work: the values of its
  \<open>UPLOAD_PROGRESS\<close> messages for a content id, the part numbers it logs as
  skipped, the part numbers of its PUT requests, and the greatest number of
  PUT requests in flight at once (starting from \<open>c\<close> requests in flight).
\<close>

fun progress_value :: "string \<Rightarrow> effect \<Rightarrow> nat option" where
  "progress_value cid (Broadcast (UPLOAD_PROGRESS c p ub tb)) = (if c = cid then Some p else None)"
| "progress_value cid e = None"

definition progress_values :: "string \<Rightarrow> effect list \<Rightarrow> nat list" where
  "progress_values cid es = List.map_filter (progress_value cid) es"

fun skipped_part :: "effect \<Rightarrow> nat option" where
  "skipped_part (Broadcast (LOG lv (Skipping_already_uploaded_part pn) c)) = Some pn"
| "skipped_part e = None"

definition skipped_parts :: "effect list \<Rightarrow> nat list" where
  "skipped_parts es = List.map_filter skipped_part es"

fun put_part :: "effect \<Rightarrow> nat option" where
  "put_part (Fetch (PUT_part pn url sz)) = Some pn"
| "put_part e = None"

definition put_parts :: "effect list \<Rightarrow> nat list" where
  "put_parts es = List.map_filter put_part es"



fun no_put :: "request \<Rightarrow> bool" where
  "no_put (PUT_part pn url sz) = False"
| "no_put r = True"

fun quiet_event :: "event \<Rightarrow> bool" where
  "quiet_event (UPLOAD_PROGRESS c p ub tb) = False"
| "quiet_event (LOG lv (Skipping_already_uploaded_part pn) c) = False"
| "quiet_event m = True"

text \<open>\<open>UPLOAD_COMPLETE\<close> for a content id.\<close>

fun upload_complete :: "string \<Rightarrow> effect \<Rightarrow> bool" where
  "upload_complete cid (Broadcast (UPLOAD_COMPLETE c url sz)) = (c = cid)"
| "upload_complete cid e = False"

text \<open>
  The values that \<open>uploadParts\<close> works with, for the state object at \<open>ref\<close>:
  \<open>totalParts\<close>; its value when the part size is not 0; the list that
  \<open>getUploadedParts\<close> returns to \<open>uploadParts\<close>; and the part numbers in
  the answer of the server to \<open>listUploadedParts\<close> in that call (none when
  the call fails).
\<close>

definition total_of :: "UploadState \<Rightarrow> total" where
  "total_of st = total_parts (file_size (source_file st)) (partSize st)"

definition reconciled :: "env \<Rightarrow> nat \<Rightarrow> world \<Rightarrow> UploadPart list" where
  "reconciled en ref w =
    fst (getUploadedParts en (heap w ref)
           (broadcastLog (Total_parts_to_upload (total_of (heap w ref))) Info None w))"

definition server_parts :: "env \<Rightarrow> nat \<Rightarrow> world \<Rightarrow> nat set" where
  "server_parts en ref w =
    (case fst (listUploadedParts en (key (heap w ref)) (uploadId (heap w ref))
                 (broadcastLog (Total_parts_to_upload (total_of (heap w ref))) Info None w)) of
       Inr ps \<Rightarrow> set (map partNumber ps)
     | Inl e \<Rightarrow> {})"

definition number_of_parts :: "UploadState \<Rightarrow> nat" where
  "number_of_parts st = (file_size (source_file st) + partSize st - 1) div partSize st"

text \<open>The URLs to which parts are PUT.\<close>

fun put_url :: "effect \<Rightarrow> string option" where
  "put_url (Fetch (PUT_part pn url sz)) = Some url"
| "put_url e = None"

definition put_urls :: "effect list \<Rightarrow> string list" where
  "put_urls es = concat (map (\<lambda>e. case put_url e of None \<Rightarrow> [] | Some u \<Rightarrow> [u]) es)"

section \<open>Sample states and environments\<close>


definition blank_state :: UploadState where
  "blank_state =
    \<lparr>state_id = [], source_file = \<lparr>file_name = [], file_size = 0\<rparr>, fileName = [],
     fileSize = 0, uploadId = [], key = [], progress = 0, status = Pending, parts = [],
     error = None, fileUrl = None, contentId = None, partSize = 0, maxConcurrentUploads = 0\<rparr>"

text \<open>An upload of a file of 3 bytes in parts of 1 byte.\<close>

definition sample_state :: "UploadStatus \<Rightarrow> UploadState" where
  "sample_state s =
    \<lparr>state_id = ''c1'', source_file = \<lparr>file_name = ''f'', file_size = 3\<rparr>, fileName = ''f'',
     fileSize = 3, uploadId = ''u1'', key = ''k1'', progress = 0, status = s, parts = [],
     error = None, fileUrl = None, contentId = Some ''c1'', partSize = 1,
     maxConcurrentUploads = 5\<rparr>"

text \<open>A network on which every request succeeds, and a storage that never fails.\<close>

definition quiet_env :: env where
  "quiet_env =
    \<lparr>initiate_reply = (\<lambda>n. Reply True
        \<lparr>resp_uploadId = ''u1'', resp_key = ''k1'', resp_content_id = ''c1'',
         resp_accelerationEndpoint = None\<rparr>),
     signed_url_reply = (\<lambda>n. Reply True ''https://b.s3.eu.amazonaws.com/k1''),
     put_reply = (\<lambda>n. Reply True (Some ''etag'')),
     complete_reply = (\<lambda>n. Reply True ''loc''),
     cancel_reply = (\<lambda>n. Reply True ()),
     list_parts_reply = (\<lambda>n. Reply True []),
     token_fires = (\<lambda>n. False),
     storage_failure = (\<lambda>n. None),
     randomUUID = (\<lambda>n. ''local-uuid'')\<rparr>"

definition empty_world :: world where
  "empty_world =
    \<lparr>uploads = Map.empty, chunks = [], heap = (\<lambda>r. blank_state), activeUploads = Map.empty,
     aborted = {}, fresh = 0, accelerationEndpoint = None, trace = [], n_fetch = 0, n_db = 0,
     n_uuid = 0\<rparr>"

text \<open>The worker holds one persisted upload \<open>c1\<close> with the given status (and
  one persisted chunk of it); the registry is empty.\<close>

definition stored_world :: "UploadStatus \<Rightarrow> world" where
  "stored_world s =
    empty_world\<lparr>uploads := [''c1'' \<mapsto> sample_state s],
                chunks := [\<lparr>chunk_id = ''x'', chunk_uploadId = ''u1'', chunk_partNumber = 1\<rparr>]\<rparr>"

text \<open>The upload \<open>c1\<close> is active: its state object is at reference 0, its
  abort controller is 1, and it is in the registry.\<close>

definition active_world :: world where
  "active_world =
    (stored_world In_progress)\<lparr>heap := (\<lambda>r. blank_state)(0 := sample_state In_progress),
       activeUploads := [''c1'' \<mapsto> (0, 1)], fresh := 2\<rparr>"

text \<open>The server answers the cancel request with a status that is not ok.\<close>

definition cancel_fails_env :: env where
  "cancel_fails_env = quiet_env\<lparr>cancel_reply := (\<lambda>n. Reply False ())\<rparr>"

text \<open>The cancel token of the upload is fired while the second request (the
  first PUT) is in flight.\<close>

definition token_env :: env where
  "token_env = quiet_env\<lparr>token_fires := (\<lambda>n. n = 1)\<rparr>"

text \<open>The server grants acceleration at initiate; and a worker whose client
  holds that acceleration endpoint.\<close>

definition accel_env :: env where
  "accel_env = quiet_env\<lparr>initiate_reply := (\<lambda>n. Reply True
      \<lparr>resp_uploadId = ''u1'', resp_key = ''k1'', resp_content_id = ''c1'',
       resp_accelerationEndpoint = Some ''s3-accelerate.amazonaws.com''\<rparr>)\<rparr>"

definition accel_world :: world where
  "accel_world = empty_world\<lparr>accelerationEndpoint := Some ''s3-accelerate.amazonaws.com''\<rparr>"

text \<open>
  The active upload \<open>c1\<close> with part 1 in its local \<open>parts\<close> list; a server
  whose list-parts call fails; a server that lists part 2; a server that
  lists no parts at the first reconcile, fails every later list-parts call and
  refuses to complete.
\<close>

definition resumed_world :: world where
  "resumed_world =
    active_world\<lparr>heap := (\<lambda>r. blank_state)(0 := (sample_state In_progress)
      \<lparr>parts := [\<lparr>partNumber = 1, eTag = ''etag'', part_size = Some 1\<rparr>], progress := 33\<rparr>)\<rparr>"

definition list_fails_env :: env where
  "list_fails_env = quiet_env\<lparr>list_parts_reply := (\<lambda>n. Reply False [])\<rparr>"

definition listed_env :: env where
  "listed_env = quiet_env\<lparr>list_parts_reply :=
     (\<lambda>n. Reply True [\<lparr>partNumber = 2, eTag = ''e2'', part_size = Some 1\<rparr>])\<rparr>"

definition flaky_env :: env where
  "flaky_env = quiet_env\<lparr>complete_reply := (\<lambda>n. Reply False []),
     list_parts_reply := (\<lambda>n. if n = 1 then Reply True [] else Reply False [])\<rparr>"

text \<open>\<open>START_UPLOAD\<close> of a file of three parts, then \<open>PAUSE_UPLOAD\<close> and
  \<open>RESUME_UPLOAD\<close> of that upload, each handler run to its end.\<close>

definition start_pause_resume :: "env \<Rightarrow> ((exn + unit) \<times> world) option" where
  "start_pause_resume en =
    (case handleUpload en
            (START_UPLOAD \<lparr>file_name = ''f'', file_size = 3\<rparr> 0 ''video/mp4''
               (Some \<lparr>cfg_size = 1, cfg_concurrent = 5\<rparr>)) empty_world of
       None \<Rightarrow> None
     | Some (r1, w1) \<Rightarrow> (case handlePause en ''c1'' w1 of (r2, w2) \<Rightarrow> handleResume en ''c1'' w2))"

section \<open>Unfolding and frame lemmas\<close>

declare fetchWithRetry.simps [simp del]
declare uploadPart.simps [simp del]
declare progress_percent.simps [simp del]

lemmas eval_defs =
  fetchWithTimeout_def fetch_def emit_def broadcast_def broadcastLog_def db_request_def
  saveUploadState_def loadUploadState_def loadChunks_def deleteUploadState_def deleteChunks_def
  initiateMultipartUpload_def getSignedUrl_def api_uploadPart_def completeMultipartUpload_def
  cancelUpload_def listUploadedParts_def shouldUseAcceleration_def transformToAcceleratedUrl_def
  update_state_def new_object_def new_AbortController_def abort_def activeUploads_delete_def
  initializeNewUpload_def getUploadStateForResume_def getUploadedParts_def broadcastProgress_def
  handleUploadError_def completeUpload_def total_parts_def uploadParts_body_def uploadParts_def
  handleUpload_def handlePause_def handleResume_def handleCancel_def
  blank_state_def sample_state_def quiet_env_def empty_world_def stored_world_def active_world_def
  cancel_fails_env_def token_env_def accel_env_def accel_world_def
  RETRY_ATTEMPTS_def RETRY_DELAY_def AbortError_def Let_def

lemmas run_defs = eval_defs uploadPart.simps fetchWithRetry.simps uploadParts_loop.simps
  match_here_def replace_s3_host_def resumed_world_def list_fails_env_def flaky_env_def
  listed_env_def start_pause_resume_def
  put_parts_def skipped_parts_def progress_values_def



section \<open>The effects of a request and of a part upload\<close>

lemma shape_append: "shape P B a \<Longrightarrow> shape P B (a @ b) = shape P B b"
  by (induction P B a rule: shape.induct) auto

lemma shape_mono:
  "shape P B es \<Longrightarrow> (\<And>r. P r \<Longrightarrow> P' r) \<Longrightarrow> (\<And>m. B m \<Longrightarrow> B' m) \<Longrightarrow> shape P' B' es"
  by (induction P B es rule: shape.induct) auto

lemma retry_schedule_append [simp]: "retry_schedule (a @ b) = retry_schedule a @ retry_schedule b"
  by (simp add: retry_schedule_def)

lemma shape_no_retry: "shape P B es \<Longrightarrow> (\<And>m. B m \<Longrightarrow> retry_announced (Broadcast m) = None) \<Longrightarrow> retry_schedule es = []"
  by (induction P B es rule: shape.induct) (auto simp: retry_schedule_def)

lemma slept_append_quiet:
  "retry_schedule a = [] \<Longrightarrow> slept_then_retried pn (a @ b) = slept_then_retried pn b"
  by (induction a) (auto simp: retry_schedule_def split: option.splits)

lemma fetchWithTimeout_trace:
  "fetchWithTimeout en req orc sg w = (r, w') \<Longrightarrow> trace w' = trace w @ [Fetch req, Settled req]"
  by (auto simp: fetchWithTimeout_def fetch_def emit_def Let_def
      split: option.splits if_splits sum.splits prod.splits reply.splits)

lemma fetchWithRetry_shape:
  "fetchWithRetry en req orc retries sg w = (r, w') \<Longrightarrow>
     \<exists>es. trace w' = trace w @ Fetch req # es \<and> shape (\<lambda>x. x = req) B (Fetch req # es)"
proof (induction en req orc retries sg w arbitrary: r w' rule: fetchWithRetry.induct)
  case (1 en req orc retries abortSignal w)
  obtain r1 w1 where f: "fetchWithTimeout en req orc abortSignal w = (r1, w1)"
    by (cases "fetchWithTimeout en req orc abortSignal w")
  note t1 = fetchWithTimeout_trace [OF f]
  show ?case
  proof (cases "\<exists>e. r1 = Inl e \<and> retries > 0 \<and> instanceof_RetryableError e")
    case False
    with "1.prems" f have "w' = w1"
      by (cases r1) (auto simp add: fetchWithRetry.simps [of en req orc retries])
    with t1 show ?thesis by simp
  next
    case True
    then obtain e where e: "r1 = Inl e" "retries > 0 \<and> instanceof_RetryableError e" by blast
    have rec: "fetchWithRetry en req orc (retries - 1) abortSignal (emit (Sleep RETRY_DELAY) w1)
          = (r, w')"
      using "1.prems" f e by (simp add: fetchWithRetry.simps [of en req orc retries])
    from "1.IH" [OF f [symmetric] _ _ rec] e
    obtain es where "trace w' = trace (emit (Sleep RETRY_DELAY) w1) @ Fetch req # es"
        "shape (\<lambda>x. x = req) B (Fetch req # es)"
      by auto
    with t1 show ?thesis by (simp add: emit_def)
  qed
qed

lemma fetchWithRetry_shape':
  assumes "fetchWithRetry en req orc retries sg w = (r, w')" and "P req"
  shows "\<exists>es. trace w' = trace w @ Fetch req # es \<and> shape P B (Fetch req # es)"
proof -
  from fetchWithRetry_shape [OF assms(1), of B] obtain es where
    es: "trace w' = trace w @ Fetch req # es" "shape (\<lambda>x. x = req) B (Fetch req # es)" by blast
  have "shape P B (Fetch req # es)"
    by (rule shape_mono [OF es(2)]) (use assms(2) in auto)
  with es(1) show ?thesis by blast
qed

lemma getSignedUrl_shape:
  assumes "getSignedUrl en pn uid ky w = (r, w')"
  shows "\<exists>es. trace w' = trace w @ es \<and> shape (for_part pn) B es
        \<and> es \<noteq> [] \<and> requests_signed_url pn (hd es)"
proof -
  define req where "req = POST_signed_url pn uid ky (truthy (accelerationEndpoint w))"
  obtain r1 w1 where f: "fetchWithRetry en req (signed_url_reply en) RETRY_ATTEMPTS None w = (r1, w1)"
    by (cases "fetchWithRetry en req (signed_url_reply en) RETRY_ATTEMPTS None w")
  have "for_part pn req" by (simp add: req_def)
  from fetchWithRetry_shape' [where P = "for_part pn" and B = B, OF f this] obtain es where
    es: "trace w1 = trace w @ Fetch req # es" "shape (for_part pn) B (Fetch req # es)" by blast
  have "w' = w1"
    using assms f by (auto simp: getSignedUrl_def req_def split: sum.splits prod.splits if_splits)
  with es show ?thesis by (auto simp: req_def)
qed

lemma api_uploadPart_shape:
  "api_uploadPart en ky uid pn sz sg w = (r, w') \<Longrightarrow>
     \<exists>es. trace w' = trace w @ es \<and> shape (for_part pn) B es
        \<and> es \<noteq> [] \<and> requests_signed_url pn (hd es)"
proof -
  assume a: "api_uploadPart en ky uid pn sz sg w = (r, w')"
  obtain r1 w1 where g: "getSignedUrl en pn uid ky w = (r1, w1)"
    by (cases "getSignedUrl en pn uid ky w")
  from getSignedUrl_shape [OF g, of B] obtain es1 where
    es1: "trace w1 = trace w @ es1" "shape (for_part pn) B es1" "es1 \<noteq> []"
         "requests_signed_url pn (hd es1)" by blast
  show ?thesis
  proof (cases r1)
    case (Inl e)
    with a g have "w' = w1" by (simp add: api_uploadPart_def)
    with es1 show ?thesis by blast
  next
    case (Inr signedUrl)
    define req where "req = PUT_part pn (transformToAcceleratedUrl (accelerationEndpoint w1) signedUrl) sz"
    obtain r2 w2 where f: "fetchWithRetry en req (put_reply en) RETRY_ATTEMPTS sg w1 = (r2, w2)"
      by (cases "fetchWithRetry en req (put_reply en) RETRY_ATTEMPTS sg w1")
    from fetchWithRetry_shape [OF f, of B] obtain es2 where
      es2: "trace w2 = trace w1 @ Fetch req # es2" "shape (\<lambda>x. x = req) B (Fetch req # es2)" by blast
    have "shape (for_part pn) B (Fetch req # es2)"
      by (rule shape_mono [OF es2(2)]) (auto simp: req_def)
    moreover have "w' = w2"
      using a g Inr f
      by (auto simp: api_uploadPart_def Let_def req_def split: sum.splits prod.splits if_splits)
    ultimately show ?thesis
      using es1 es2 by (auto simp: shape_append)
  qed
qed


lemma uploadPart_effects:
  "uploadPart en cid ky uid pn sz sg rc w = (r, w') \<Longrightarrow>
    \<exists>es. trace w' = trace w @ es \<and> shape (for_part pn) (part_event pn) es
       \<and> es \<noteq> [] \<and> requests_signed_url pn (hd es) \<and> slept_then_retried pn es
       \<and> (\<exists>n. rc + n \<le> max rc RETRY_ATTEMPTS
             \<and> retry_schedule es = map backoff [Suc rc ..< Suc rc + n])"
proof (induction en cid ky uid pn sz sg rc w arbitrary: r w' rule: uploadPart.induct)
  case (1 en cid ky uid pn sz sg rc w)
  obtain r1 w1 where a: "api_uploadPart en ky uid pn sz sg w = (r1, w1)"
    by (cases "api_uploadPart en ky uid pn sz sg w")
  from api_uploadPart_shape [OF a, of "\<lambda>m. False"] obtain es1 where
    es1: "trace w1 = trace w @ es1" "shape (for_part pn) (\<lambda>m. False) es1" "es1 \<noteq> []"
         "requests_signed_url pn (hd es1)" by blast
  have q1: "retry_schedule es1 = []"
    by (rule shape_no_retry [OF es1(2)]) simp
  have s1: "shape (for_part pn) (part_event pn) es1"
    by (rule shape_mono [OF es1(2)]) auto
  have sl1: "slept_then_retried pn es1"
    using slept_append_quiet [OF q1, of pn "[]"] by simp
  define retry where "retry = (\<exists>e. r1 = Inl e \<and> rc < RETRY_ATTEMPTS
      \<and> instanceof_RetryableError e \<and> \<not> is_AbortError e)"
  show ?case
  proof (cases retry)
    case False
    have "\<exists>tl. trace w' = trace w1 @ tl \<and> shape (for_part pn) (part_event pn) tl
        \<and> retry_schedule tl = [] \<and> slept_then_retried pn tl"
    proof (cases r1)
      case (Inl e)
      with False "1.prems" a have "w' = w1"
        by (auto simp: retry_def uploadPart.simps [of en cid ky uid pn sz sg rc w])
      then show ?thesis by (simp add: retry_schedule_def)
    next
      case (Inr part)
      with "1.prems" a have "w' = broadcast (CHUNK_UPLOADED cid pn sz) w1"
        by (auto simp: uploadPart.simps [of en cid ky uid pn sz sg rc w])
      then show ?thesis by (simp add: retry_schedule_def broadcast_def emit_def)
    qed
    then obtain tl where tl: "trace w' = trace w1 @ tl" "shape (for_part pn) (part_event pn) tl"
        "retry_schedule tl = []" "slept_then_retried pn tl" by blast
    have "trace w' = trace w @ (es1 @ tl)" using es1 tl by simp
    moreover have "shape (for_part pn) (part_event pn) (es1 @ tl)"
      using s1 tl by (simp add: shape_append)
    moreover have "es1 @ tl \<noteq> []" "requests_signed_url pn (hd (es1 @ tl))"
      using es1 by simp_all
    moreover have "slept_then_retried pn (es1 @ tl)"
      using tl by (simp add: slept_append_quiet [OF q1])
    moreover have "rc + 0 \<le> max rc RETRY_ATTEMPTS
        \<and> retry_schedule (es1 @ tl) = map backoff [Suc rc ..< Suc rc + 0]"
      using q1 tl by simp
    ultimately show ?thesis by blast
  next
    case True
    then obtain e where e: "r1 = Inl e" "rc < RETRY_ATTEMPTS"
        "instanceof_RetryableError e" "\<not> is_AbortError e"
      by (auto simp: retry_def)
    define delay where "delay = min (1000 * 2 ^ rc) (30000::nat)"
    define ev where "ev = Broadcast (RETRYING_CHUNK cid pn (rc + 1) RETRY_ATTEMPTS (message e) delay)"
    define w2 where "w2 = broadcast
        (RETRYING_CHUNK cid pn (rc + 1) RETRY_ATTEMPTS (message e) delay) w1"
    define w3 where "w3 = emit (Sleep delay) w2"
    have econd: "rc < RETRY_ATTEMPTS \<and> instanceof_RetryableError e \<and> \<not> is_AbortError e"
      using e by simp
    have rec: "uploadPart en cid ky uid pn sz sg (rc + 1) w3 = (r, w')"
      using "1.prems" a e
      by (simp add: uploadPart.simps [of en cid ky uid pn sz sg rc w] Let_def w3_def w2_def
          delay_def)
    have "\<exists>es. trace w' = trace w3 @ es \<and> shape (for_part pn) (part_event pn) es
       \<and> es \<noteq> [] \<and> requests_signed_url pn (hd es) \<and> slept_then_retried pn es
       \<and> (\<exists>n. (rc + 1) + n \<le> max (rc + 1) RETRY_ATTEMPTS
             \<and> retry_schedule es = map backoff [Suc (rc + 1) ..< Suc (rc + 1) + n])"
      by (rule "1.IH" [OF a [symmetric] e(1) econd delay_def w2_def w3_def rec])
    then obtain es2 n where es2: "trace w' = trace w3 @ es2"
        "shape (for_part pn) (part_event pn) es2" "es2 \<noteq> []" "requests_signed_url pn (hd es2)"
        "slept_then_retried pn es2" "(rc + 1) + n \<le> max (rc + 1) RETRY_ATTEMPTS"
        "retry_schedule es2 = map backoff [Suc (rc + 1) ..< Suc (rc + 1) + n]" by blast
    have t3: "trace w3 = trace w1 @ [ev, Sleep delay]"
      by (simp add: w3_def w2_def ev_def broadcast_def emit_def)
    have tk: "take 1 es2 = [hd es2]" using es2(3) by (cases es2) auto
    have "trace w' = trace w @ (es1 @ ev # Sleep delay # es2)"
      using es1 es2 t3 by simp
    moreover have "shape (for_part pn) (part_event pn) (es1 @ ev # Sleep delay # es2)"
      using s1 es2 by (simp add: shape_append ev_def)
    moreover have "es1 @ ev # Sleep delay # es2 \<noteq> []"
        "requests_signed_url pn (hd (es1 @ ev # Sleep delay # es2))"
      using es1 by simp_all
    moreover have "slept_then_retried pn (es1 @ ev # Sleep delay # es2)"
      using es2 tk by (simp add: slept_append_quiet [OF q1] ev_def)
    moreover have "rc + Suc n \<le> max rc RETRY_ATTEMPTS
        \<and> retry_schedule (es1 @ ev # Sleep delay # es2) = map backoff [Suc rc ..< Suc rc + Suc n]"
    proof -
      have "retry_schedule (ev # Sleep delay # es2) = (rc + 1, delay) # retry_schedule es2"
        by (simp add: retry_schedule_def ev_def)
      moreover have "backoff (Suc rc) = (rc + 1, delay)"
        by (simp add: backoff_def delay_def)
      moreover have "[Suc rc ..< Suc rc + Suc n] = Suc rc # [Suc (rc + 1) ..< Suc (rc + 1) + n]"
        by (simp add: upt_conv_Cons)
      ultimately show ?thesis using q1 es2 e by simp
    qed
    ultimately show ?thesis by blast
  qed
qed

section \<open>The acceleration endpoint and the URL of a PUT\<close>

lemma put_urls_append [simp]: "put_urls (a @ b) = put_urls a @ put_urls b"
  by (simp add: put_urls_def)




section \<open>The effects of a run of the part driver\<close>

lemma map_filter_append [simp]: "List.map_filter f (a @ b) = List.map_filter f a @ List.map_filter f b"
  by (simp add: List.map_filter_def)

lemma ext_eq: "trace w' = trace w @ es \<Longrightarrow> effects_since w w' = es"
  by (simp add: effects_since_def)

lemma shape_quiet:
  "shape P B es \<Longrightarrow> (\<And>m. B m \<Longrightarrow> quiet_event m) \<Longrightarrow>
     progress_values cid es = [] \<and> skipped_parts es = []"
proof (induction P B es rule: shape.induct)
  case (3 P B m es)
  then have "quiet_event m" by simp
  then have "progress_value cid (Broadcast m) = None \<and> skipped_part (Broadcast m) = None"
    by (cases m rule: quiet_event.cases) auto
  with 3 show ?case
    by (simp add: progress_values_def skipped_parts_def)
qed (auto simp: progress_values_def skipped_parts_def)

lemma no_put_put_part: "no_put r \<Longrightarrow> put_part (Fetch r) = None"
  by (cases r) auto

lemma for_part_put_part:
  "for_part pn r \<Longrightarrow> put_part (Fetch r) = None \<or> put_part (Fetch r) = Some pn"
  by (cases r) auto

lemma put_part_other [simp]:
  "put_part (Sleep d) = None" "put_part (Broadcast m) = None" "put_part (Settled r) = None"
  by simp_all

lemma shape_no_put:
  "shape P B es \<Longrightarrow> (\<And>r. P r \<Longrightarrow> no_put r) \<Longrightarrow> put_parts es = []"
  by (induction P B es rule: shape.induct)
     (auto simp: put_parts_def no_put_put_part simp del: put_part.simps)

lemma shape_put_for_part:
  "shape P B es \<Longrightarrow> (\<And>r. P r \<Longrightarrow> for_part pn r) \<Longrightarrow> set (put_parts es) \<subseteq> {pn}"
proof (induction P B es rule: shape.induct)
  case (4 P B r r' es)
  then have "for_part pn r" "set (put_parts es) \<subseteq> {pn}" by auto
  with for_part_put_part [of pn r] show ?case
    by (auto simp: put_parts_def simp del: put_part.simps)
qed (auto simp: put_parts_def)


lemma saveUploadState_shape:
  "saveUploadState en st w = (r, w') \<Longrightarrow>
     \<exists>es. trace w' = trace w @ es \<and> shape no_put quiet_event es"
  by (auto simp: saveUploadState_def db_request_def broadcastLog_def broadcast_def emit_def Let_def
      split: option.splits prod.splits)

lemma handleUploadError_shape:
  "handleUploadError en cid e w = (r, w') \<Longrightarrow>
     \<exists>es. trace w' = trace w @ es \<and> shape no_put quiet_event es"
  by (auto simp: handleUploadError_def update_state_def activeUploads_delete_def broadcast_def
      emit_def Let_def shape_append
      split: option.splits prod.splits sum.splits dest!: saveUploadState_shape)

lemma getUploadedParts_shape:
  assumes "getUploadedParts en st w = (ps, w')"
  shows "\<exists>es. trace w' = trace w @ es \<and> shape no_put quiet_event es"
proof -
  define req where "req = POST_list_parts (key st) (uploadId st)"
  obtain r1 w1 where f: "fetchWithRetry en req (list_parts_reply en) RETRY_ATTEMPTS None w = (r1, w1)"
    by (cases "fetchWithRetry en req (list_parts_reply en) RETRY_ATTEMPTS None w")
  have "no_put req" by (simp add: req_def)
  from fetchWithRetry_shape' [where P = no_put and B = quiet_event, OF f this] obtain es where
    es: "trace w1 = trace w @ Fetch req # es" "shape no_put quiet_event (Fetch req # es)" by blast
  have "\<exists>tl. trace w' = trace w1 @ tl \<and> shape no_put quiet_event tl"
    using assms f
    by (auto simp: getUploadedParts_def listUploadedParts_def req_def broadcastLog_def
        broadcast_def emit_def split: sum.splits prod.splits if_splits)
  then obtain tl where tl: "trace w' = trace w1 @ tl" "shape no_put quiet_event tl" by blast
  have "trace w' = trace w @ (Fetch req # es) @ tl"
    using es tl by simp
  moreover have "shape no_put quiet_event ((Fetch req # es) @ tl)"
    using es(2) tl(2) by (simp add: shape_append del: append.simps)
  ultimately show ?thesis by blast
qed

lemma completeUpload_shape:
  assumes "completeUpload en ref w = (r, w')"
  shows "\<exists>es. trace w' = trace w @ es \<and> shape no_put quiet_event es"
proof (cases "truthy (contentId (heap w ref))")
  case False
  with assms show ?thesis by (auto simp: completeUpload_def Let_def)
next
  case True
  define st where "st = heap w ref"
  define cid where "cid = the (contentId st)"
  define w0 where "w0 = broadcastLog (Completing_upload cid) Info None w"
  define req where "req = POST_complete (key st) (uploadId st) cid (parts st) (truthy (accelerationEndpoint w0))"
  obtain r1 w1 where f: "fetchWithRetry en req (complete_reply en) RETRY_ATTEMPTS None w0 = (r1, w1)"
    by (cases "fetchWithRetry en req (complete_reply en) RETRY_ATTEMPTS None w0")
  have "no_put req" by (simp add: req_def)
  from fetchWithRetry_shape' [where P = no_put and B = quiet_event, OF f this] obtain es where
    es: "trace w1 = trace w0 @ Fetch req # es" "shape no_put quiet_event (Fetch req # es)" by blast
  have t0: "trace w0 = trace w @ [Broadcast (LOG Info (Completing_upload cid) None)]"
    by (simp add: w0_def broadcastLog_def broadcast_def emit_def)
  have "\<exists>tl. trace w' = trace w1 @ tl \<and> shape no_put quiet_event tl"
    using assms True f
    by (auto simp: completeUpload_def completeMultipartUpload_def Let_def st_def cid_def w0_def
        req_def update_state_def activeUploads_delete_def broadcastLog_def broadcast_def emit_def
        shape_append
        split: sum.splits prod.splits if_splits dest!: saveUploadState_shape)
  then obtain tl where tl: "trace w' = trace w1 @ tl" "shape no_put quiet_event tl" by blast
  have "trace w' = trace w @ ([Broadcast (LOG Info (Completing_upload cid) None)] @ (Fetch req # es) @ tl)"
    using es t0 tl by simp
  moreover have "shape no_put quiet_event
      ([Broadcast (LOG Info (Completing_upload cid) None)] @ (Fetch req # es) @ tl)"
    using es(2) tl(2) by (simp add: shape_append del: append.simps)
  ultimately show ?thesis by blast
qed


lemma progress_values_append [simp]:
  "progress_values cid (a @ b) = progress_values cid a @ progress_values cid b"
  by (simp add: progress_values_def)

lemma skipped_parts_append [simp]: "skipped_parts (a @ b) = skipped_parts a @ skipped_parts b"
  by (simp add: skipped_parts_def)

lemma put_parts_append [simp]: "put_parts (a @ b) = put_parts a @ put_parts b"
  by (simp add: put_parts_def)

lemma quiet_facts:
  assumes "shape no_put quiet_event es"
  shows "progress_values cid es = [] \<and> skipped_parts es = [] \<and> put_parts es = []
    \<and> shape (\<lambda>r. True) (\<lambda>m. True) es"
  using shape_quiet [OF assms, of cid] shape_no_put [OF assms] shape_mono [OF assms]
  by auto

lemma part_event_quiet: "part_event pn m \<Longrightarrow> quiet_event m"
  by (cases m) auto

lemma part_facts:
  assumes "shape (for_part pn) (part_event pn) es"
  shows "progress_values cid es = [] \<and> skipped_parts es = [] \<and> set (put_parts es) \<subseteq> {pn}
    \<and> shape (\<lambda>r. True) (\<lambda>m. True) es"
  using shape_quiet [OF assms, of cid] shape_put_for_part [OF assms, of pn] shape_mono [OF assms]
    part_event_quiet
  by auto

lemma api_uploadPart_put:
  assumes "api_uploadPart en ky uid pn sz sg w = (Inr part, w')"
  shows "\<exists>es. trace w' = trace w @ es \<and> pn \<in> set (put_parts es)"
proof -
  obtain r1 w1 where g: "getSignedUrl en pn uid ky w = (r1, w1)"
    by (cases "getSignedUrl en pn uid ky w")
  from getSignedUrl_shape [OF g, of "\<lambda>m. True"] obtain es1 where
    es1: "trace w1 = trace w @ es1" by blast
  from assms g obtain signedUrl where r1: "r1 = Inr signedUrl"
    by (cases r1) (auto simp: api_uploadPart_def)
  define req where "req = PUT_part pn (transformToAcceleratedUrl (accelerationEndpoint w1) signedUrl) sz"
  obtain r2 w2 where f: "fetchWithRetry en req (put_reply en) RETRY_ATTEMPTS sg w1 = (r2, w2)"
    by (cases "fetchWithRetry en req (put_reply en) RETRY_ATTEMPTS sg w1")
  from fetchWithRetry_shape [OF f, of "\<lambda>m. True"] obtain es2 where
    es2: "trace w2 = trace w1 @ Fetch req # es2" by blast
  have "w' = w2"
    using assms g r1 f
    by (auto simp: api_uploadPart_def Let_def req_def split: sum.splits prod.splits if_splits)
  then have "trace w' = trace w @ (es1 @ Fetch req # es2)" using es1 es2 by simp
  moreover have "pn \<in> set (put_parts (es1 @ Fetch req # es2))"
    by (simp add: req_def) (simp add: put_parts_def)
  ultimately show ?thesis by blast
qed

lemma uploadPart_put:
  "uploadPart en cid ky uid pn sz sg rc w = (Inr part, w') \<Longrightarrow>
     \<exists>es. trace w' = trace w @ es \<and> pn \<in> set (put_parts es)"
proof (induction en cid ky uid pn sz sg rc w arbitrary: part w' rule: uploadPart.induct)
  case (1 en cid ky uid pn sz sg rc w)
  obtain r1 w1 where a: "api_uploadPart en ky uid pn sz sg w = (r1, w1)"
    by (cases "api_uploadPart en ky uid pn sz sg w")
  show ?case
  proof (cases r1)
    case (Inr p)
    from api_uploadPart_put [OF a [unfolded Inr]] obtain es1 where
      es1: "trace w1 = trace w @ es1" "pn \<in> set (put_parts es1)" by blast
    from "1.prems" a Inr have "w' = broadcast (CHUNK_UPLOADED cid pn sz) w1"
      by (auto simp: uploadPart.simps [of en cid ky uid pn sz sg rc w])
    then have "trace w' = trace w @ (es1 @ [Broadcast (CHUNK_UPLOADED cid pn sz)])"
      using es1 by (simp add: broadcast_def emit_def)
    moreover have "pn \<in> set (put_parts (es1 @ [Broadcast (CHUNK_UPLOADED cid pn sz)]))"
      using es1 by simp
    ultimately show ?thesis by blast
  next
    case (Inl e)
    from api_uploadPart_shape [OF a, of "\<lambda>m. True"] obtain es1 where
      es1: "trace w1 = trace w @ es1" by blast
    define delay where "delay = min (1000 * 2 ^ rc) (30000::nat)"
    define w2 where "w2 = broadcast
        (RETRYING_CHUNK cid pn (rc + 1) RETRY_ATTEMPTS (message e) delay) w1"
    define w3 where "w3 = emit (Sleep delay) w2"
    have econd: "rc < RETRY_ATTEMPTS \<and> instanceof_RetryableError e \<and> \<not> is_AbortError e"
      using "1.prems" a Inl
      by (auto simp: uploadPart.simps [of en cid ky uid pn sz sg rc w] split: if_splits)
    have rec: "uploadPart en cid ky uid pn sz sg (rc + 1) w3 = (Inr part, w')"
      using "1.prems" a Inl econd
      by (simp add: uploadPart.simps [of en cid ky uid pn sz sg rc w] Let_def w3_def w2_def
          delay_def)
    from "1.IH" [OF a [symmetric] Inl econd delay_def w2_def w3_def rec] obtain es2 where
      es2: "trace w' = trace w3 @ es2" "pn \<in> set (put_parts es2)" by blast
    have "trace w3 = trace w1 @ [Broadcast (RETRYING_CHUNK cid pn (rc + 1) RETRY_ATTEMPTS (message e) delay),
        Sleep delay]"
      by (simp add: w3_def w2_def broadcast_def emit_def)
    with es1 es2 have "trace w' = trace w @ (es1
        @ [Broadcast (RETRYING_CHUNK cid pn (rc + 1) RETRY_ATTEMPTS (message e) delay), Sleep delay]
        @ es2)" by simp
    moreover have "pn \<in> set (put_parts (es1
        @ [Broadcast (RETRYING_CHUNK cid pn (rc + 1) RETRY_ATTEMPTS (message e) delay), Sleep delay]
        @ es2))" using es2 by (simp add: put_parts_def)
    ultimately show ?thesis by blast
  qed
qed

lemma caught_shape:
  assumes "(case handleUploadError en cid e w of (Inl e', w'') \<Rightarrow> (Inl e', w'')
            | (Inr u, w'') \<Rightarrow> (Inl e, w'')) = (r, w')"
  shows "\<exists>es x. trace w' = trace w @ es \<and> shape no_put quiet_event es \<and> r = Inl x"
  using assms
  by (auto split: prod.splits sum.splits dest!: handleUploadError_shape)

lemma body_effects:
  assumes b: "uploadParts_body en ref ctl st0 cid tot S pn c w = (r, w')"
  shows "\<exists>es. trace w' = trace w @ es \<and> shape (\<lambda>r. True) (\<lambda>m. True) es
      \<and> (pn \<in> S \<longrightarrow> r = Inr c \<and> skipped_parts es = [pn] \<and> put_parts es = []
            \<and> progress_values cid es = [])
      \<and> (pn \<notin> S \<longrightarrow> skipped_parts es = [] \<and> set (put_parts es) \<subseteq> {pn}
            \<and> (case r of
                  Inr c' \<Rightarrow> c' = c + 1 \<and> pn \<in> set (put_parts es)
                     \<and> progress_values cid es = [progress_percent (c + 1) tot]
                | Inl e \<Rightarrow> progress_values cid es = []))"
proof (cases "pn \<in> S")
  case True
  with b have "r = Inr c" "w' = broadcastLog (Skipping_already_uploaded_part pn) Info None w"
    by (auto simp: uploadParts_body_def)
  then have "trace w' = trace w @ [Broadcast (LOG Info (Skipping_already_uploaded_part pn) None)]"
    by (simp add: broadcastLog_def broadcast_def emit_def)
  with True \<open>r = Inr c\<close> show ?thesis
    by (auto simp: skipped_parts_def put_parts_def progress_values_def)
next
  case False
  define chunk_size where "chunk_size =
    min ((pn - 1) * partSize st0 + partSize st0) (file_size (source_file st0)) - (pn - 1) * partSize st0"
  obtain r1 w1 where u: "uploadPart en cid (key st0) (uploadId st0) pn chunk_size (Some ctl) 0 w = (r1, w1)"
    by (cases "uploadPart en cid (key st0) (uploadId st0) pn chunk_size (Some ctl) 0 w")
  from uploadPart_effects [OF u] obtain es1 where
    es1: "trace w1 = trace w @ es1" "shape (for_part pn) (part_event pn) es1" by blast
  note p1 = part_facts [OF es1(2), of cid]
  have "\<exists>tl. trace w' = trace w1 @ tl \<and> shape (\<lambda>r. True) (\<lambda>m. True) tl
      \<and> skipped_parts tl = [] \<and> put_parts tl = []
      \<and> (case r of
            Inr c' \<Rightarrow> c' = c + 1 \<and> (\<exists>part. r1 = Inr part)
               \<and> progress_values cid tl = [progress_percent (c + 1) tot]
          | Inl e \<Rightarrow> progress_values cid tl = [])"
  proof (cases r1)
    case (Inl e)
    with b False u have "(case handleUploadError en cid e w1 of (Inl e', w'') \<Rightarrow> (Inl e', w'')
            | (Inr u, w'') \<Rightarrow> (Inl e, w'')) = (r, w')"
      by (simp add: uploadParts_body_def Let_def chunk_size_def)
    from caught_shape [OF this] obtain tl x where
      tl: "trace w' = trace w1 @ tl" "shape no_put quiet_event tl" "r = Inl x" by blast
    with quiet_facts [OF tl(2), of cid] show ?thesis by auto
  next
    case (Inr part)
    define prog where "prog = progress_percent (c + 1) tot"
    define w3 where "w3 = update_state ref (\<lambda>s. s\<lparr>progress := prog\<rparr>)
        (update_state ref (\<lambda>s. s\<lparr>parts := parts s @ [part]\<rparr>) w1)"
    have t3: "trace w3 = trace w1" by (simp add: w3_def update_state_def)
    obtain r4 w4 where sv: "saveUploadState en (heap w3 ref) w3 = (r4, w4)"
      by (cases "saveUploadState en (heap w3 ref) w3")
    from saveUploadState_shape [OF sv] obtain es4 where
      es4: "trace w4 = trace w3 @ es4" "shape no_put quiet_event es4" by blast
    note q4 = quiet_facts [OF es4(2), of cid]
    show ?thesis
    proof (cases r4)
      case (Inl e)
      with b False u Inr sv have "(case handleUploadError en cid e w4 of (Inl e', w'') \<Rightarrow> (Inl e', w'')
            | (Inr u, w'') \<Rightarrow> (Inl e, w'')) = (r, w')"
        by (simp add: uploadParts_body_def Let_def chunk_size_def w3_def prog_def)
      from caught_shape [OF this] obtain tl x where
        tl: "trace w' = trace w4 @ tl" "shape no_put quiet_event tl" "r = Inl x" by blast
      note q = quiet_facts [OF tl(2), of cid]
      have "trace w' = trace w1 @ (es4 @ tl)" using tl es4 t3 by simp
      moreover have "shape (\<lambda>r. True) (\<lambda>m. True) (es4 @ tl)"
        using q4 q by (simp add: shape_append)
      ultimately show ?thesis using q q4 tl(3) by (auto simp: progress_values_def skipped_parts_def put_parts_def)
    next
      case (Inr u4)
      with b False u \<open>r1 = Inr part\<close> sv
      have rw: "r = Inr (c + 1)" "w' = broadcastProgress cid prog (c + 1) (heap w4 ref) w4"
        by (simp_all add: uploadParts_body_def Let_def chunk_size_def w3_def prog_def)
      define ev where "ev = Broadcast (UPLOAD_PROGRESS cid prog ((c + 1) * partSize (heap w4 ref))
          (fileSize (heap w4 ref)))"
      have "trace w' = trace w1 @ (es4 @ [ev])"
        using rw es4 t3 by (simp add: broadcastProgress_def broadcast_def emit_def ev_def)
      moreover have "shape (\<lambda>r. True) (\<lambda>m. True) (es4 @ [ev])"
        using q4 by (simp add: shape_append ev_def)
      moreover have "progress_values cid (es4 @ [ev]) = [prog]" "skipped_parts (es4 @ [ev]) = []"
          "put_parts (es4 @ [ev]) = []"
        using q4 by (simp_all add: progress_values_def skipped_parts_def put_parts_def ev_def
           )
      ultimately show ?thesis using rw \<open>r1 = Inr part\<close> by (auto simp: prog_def)
    qed
  qed
  then obtain tl where tl: "trace w' = trace w1 @ tl" "shape (\<lambda>r. True) (\<lambda>m. True) tl"
      "skipped_parts tl = []" "put_parts tl = []"
      "(case r of
            Inr c' \<Rightarrow> c' = c + 1 \<and> (\<exists>part. r1 = Inr part)
               \<and> progress_values cid tl = [progress_percent (c + 1) tot]
          | Inl e \<Rightarrow> progress_values cid tl = [])" by blast
  have put: "(\<exists>part. r1 = Inr part) \<Longrightarrow> pn \<in> set (put_parts es1)"
  proof -
    assume "\<exists>part. r1 = Inr part"
    then obtain part where "r1 = Inr part" by blast
    from uploadPart_put [OF u [unfolded this]] es1(1) show ?thesis by auto
  qed
  have "trace w' = trace w @ (es1 @ tl)" using es1 tl by simp
  moreover have "shape (\<lambda>r. True) (\<lambda>m. True) (es1 @ tl)"
    using p1 tl by (simp add: shape_append)
  moreover have "skipped_parts (es1 @ tl) = []" "set (put_parts (es1 @ tl)) \<subseteq> {pn}"
    using p1 tl by (simp_all add: skipped_parts_def put_parts_def)
  moreover have "(case r of
                  Inr c' \<Rightarrow> c' = c + 1 \<and> pn \<in> set (put_parts (es1 @ tl))
                     \<and> progress_values cid (es1 @ tl) = [progress_percent (c + 1) tot]
                | Inl e \<Rightarrow> progress_values cid (es1 @ tl) = [])"
    using tl(5) p1 put by (auto simp: progress_values_def put_parts_def split: sum.splits)
  ultimately show ?thesis using False by blast
qed


lemma sorted_constant: "set xs \<subseteq> {a} \<Longrightarrow> sorted (xs :: nat list)"
  by (induction xs) auto

lemma loop_effects:
  "\<exists>r w' es k. uploadParts_loop en ref ctl st0 cid (Finite t) S p c w = Some (r, w')
      \<and> trace w' = trace w @ es \<and> shape (\<lambda>r. True) (\<lambda>m. True) es
      \<and> progress_values cid es = map (\<lambda>j. progress_percent j (Finite t)) [Suc c ..< Suc c + k]
      \<and> set (skipped_parts es) \<subseteq> S \<inter> {p..t}
      \<and> set (put_parts es) \<subseteq> {p..t} - S \<and> sorted (put_parts es)
      \<and> (r = Inr () \<longrightarrow> set (skipped_parts es) = S \<inter> {p..t}
            \<and> set (put_parts es) = {p..t} - S \<and> k = card ({p..t} - S))"
proof (induction "Suc t - p" arbitrary: p c w)
  case 0
  then have "\<not> part_within p (Finite t)" by simp
  then have "uploadParts_loop en ref ctl st0 cid (Finite t) S p c w = Some (Inr (), w)"
    by (subst uploadParts_loop.simps) simp
  moreover have "{p..t} = {}" using 0 by simp
  ultimately show ?case
    by (intro exI [of _ "Inr ()"] exI [of _ w] exI [of _ "[]"] exI [of _ 0])
       (simp add: progress_values_def skipped_parts_def put_parts_def)
next
  case (Suc n)
  then have pt: "p \<le> t" and n: "n = Suc t - Suc p" by simp_all
  have ins: "{p..t} = insert p {Suc p..t}" using pt by auto
  obtain rb w1 where b: "uploadParts_body en ref ctl st0 cid (Finite t) S p c w = (rb, w1)"
    by (cases "uploadParts_body en ref ctl st0 cid (Finite t) S p c w")
  from body_effects [OF b] obtain es1 where es1: "trace w1 = trace w @ es1"
      "shape (\<lambda>r. True) (\<lambda>m. True) es1"
      "p \<in> S \<longrightarrow> rb = Inr c \<and> skipped_parts es1 = [p] \<and> put_parts es1 = []
            \<and> progress_values cid es1 = []"
      "p \<notin> S \<longrightarrow> skipped_parts es1 = [] \<and> set (put_parts es1) \<subseteq> {p}
            \<and> (case rb of
                  Inr c' \<Rightarrow> c' = c + 1 \<and> p \<in> set (put_parts es1)
                     \<and> progress_values cid es1 = [progress_percent (c + 1) (Finite t)]
                | Inl e \<Rightarrow> progress_values cid es1 = [])"
    by blast
  have so1b: "set (put_parts es1) \<subseteq> {p}"
    using es1(3,4) by (cases "p \<in> S") auto
  have so1: "sorted (put_parts es1)" "set (put_parts es1) \<subseteq> {p}"
    using so1b sorted_constant [OF so1b] by simp_all
  show ?case
  proof (cases rb)
    case (Inl e)
    then have l: "uploadParts_loop en ref ctl st0 cid (Finite t) S p c w = Some (Inl e, w1)"
      using b pt by (subst uploadParts_loop.simps) simp
    have ns: "p \<notin> S" using es1(3) Inl by auto
    have "progress_values cid es1 = map (\<lambda>j. progress_percent j (Finite t)) [Suc c ..< Suc c + 0]"
      using es1(4) ns Inl by simp
    moreover have "set (skipped_parts es1) \<subseteq> S \<inter> {p..t}" "set (put_parts es1) \<subseteq> {p..t} - S"
      using es1(4) ns pt by auto
    ultimately show ?thesis
      using l es1(1,2) so1(1)
      by (intro exI [of _ "Inl e"] exI [of _ w1] exI [of _ es1] exI [of _ 0]) simp
  next
    case (Inr c')
    then have l: "uploadParts_loop en ref ctl st0 cid (Finite t) S p c w
        = uploadParts_loop en ref ctl st0 cid (Finite t) S (p + 1) c' w1"
      using b pt by (subst uploadParts_loop.simps) simp
    from Suc.hyps(1) [of "p + 1" c' w1] n obtain r w' es2 k2 where
      ih: "uploadParts_loop en ref ctl st0 cid (Finite t) S (p + 1) c' w1 = Some (r, w')"
        "trace w' = trace w1 @ es2" "shape (\<lambda>r. True) (\<lambda>m. True) es2"
        "progress_values cid es2 = map (\<lambda>j. progress_percent j (Finite t)) [Suc c' ..< Suc c' + k2]"
        "set (skipped_parts es2) \<subseteq> S \<inter> {p + 1..t}"
        "set (put_parts es2) \<subseteq> {p + 1..t} - S" "sorted (put_parts es2)"
        "r = Inr () \<longrightarrow> set (skipped_parts es2) = S \<inter> {p + 1..t}
            \<and> set (put_parts es2) = {p + 1..t} - S \<and> k2 = card ({p + 1..t} - S)"
      by auto
    have tr: "trace w' = trace w @ (es1 @ es2)" using es1(1) ih(2) by simp
    have sh: "shape (\<lambda>r. True) (\<lambda>m. True) (es1 @ es2)"
      using es1(2) ih(3) by (simp add: shape_append)
    have so: "sorted (put_parts (es1 @ es2))"
    proof -
      have "\<forall>x\<in>set (put_parts es1). \<forall>y\<in>set (put_parts es2). x \<le> y"
      proof (intro ballI)
        fix x y assume "x \<in> set (put_parts es1)" "y \<in> set (put_parts es2)"
        with so1(2) ih(6) have "x = p" "Suc p \<le> y" by auto
        then show "x \<le> y" by simp
      qed
      with so1(1) ih(7) show ?thesis by (simp add: sorted_append)
    qed
    show ?thesis
    proof (cases "p \<in> S")
      case True
      then have e1: "c' = c" "skipped_parts es1 = [p]" "put_parts es1 = []"
          "progress_values cid es1 = []"
        using es1(3) Inr by auto
      have "progress_values cid (es1 @ es2)
          = map (\<lambda>j. progress_percent j (Finite t)) [Suc c ..< Suc c + k2]"
        using e1 ih(4) by simp
      moreover have "set (skipped_parts (es1 @ es2)) \<subseteq> S \<inter> {p..t}"
          "set (put_parts (es1 @ es2)) \<subseteq> {p..t} - S"
        using e1 ih(5,6) True pt by auto
      moreover have "r = Inr () \<longrightarrow> set (skipped_parts (es1 @ es2)) = S \<inter> {p..t}
            \<and> set (put_parts (es1 @ es2)) = {p..t} - S \<and> k2 = card ({p..t} - S)"
      proof
        assume "r = Inr ()"
        with ih(8) have f: "set (skipped_parts es2) = S \<inter> {p + 1..t}"
            "set (put_parts es2) = {p + 1..t} - S" "k2 = card ({p + 1..t} - S)" by auto
        have "{p..t} - S = {p + 1..t} - S" using True ins by auto
        moreover have "S \<inter> {p..t} = insert p (S \<inter> {p + 1..t})" using True ins by auto
        ultimately show "set (skipped_parts (es1 @ es2)) = S \<inter> {p..t}
            \<and> set (put_parts (es1 @ es2)) = {p..t} - S \<and> k2 = card ({p..t} - S)"
          using f e1 by simp
      qed
      ultimately show ?thesis
        using l ih(1) tr sh so
        by (intro exI [of _ r] exI [of _ w'] exI [of _ "es1 @ es2"] exI [of _ k2]) simp
    next
      case False
      then have e1: "c' = c + 1" "skipped_parts es1 = []" "set (put_parts es1) = {p}"
          "progress_values cid es1 = [progress_percent (c + 1) (Finite t)]"
        using es1(4) Inr by auto
      have "[Suc c ..< Suc c + Suc k2] = Suc c # [Suc (c + 1) ..< Suc (c + 1) + k2]"
        by (simp add: upt_conv_Cons)
      then have "progress_values cid (es1 @ es2)
          = map (\<lambda>j. progress_percent j (Finite t)) [Suc c ..< Suc c + Suc k2]"
        using e1 ih(4) by simp
      moreover have "set (skipped_parts (es1 @ es2)) \<subseteq> S \<inter> {p..t}"
          "set (put_parts (es1 @ es2)) \<subseteq> {p..t} - S"
        using e1 ih(5,6) False pt by auto
      moreover have "r = Inr () \<longrightarrow> set (skipped_parts (es1 @ es2)) = S \<inter> {p..t}
            \<and> set (put_parts (es1 @ es2)) = {p..t} - S \<and> Suc k2 = card ({p..t} - S)"
      proof
        assume "r = Inr ()"
        with ih(8) have f: "set (skipped_parts es2) = S \<inter> {p + 1..t}"
            "set (put_parts es2) = {p + 1..t} - S" "k2 = card ({p + 1..t} - S)" by auto
        have d: "{p..t} - S = insert p ({p + 1..t} - S)" using False ins by auto
        have "p \<notin> {p + 1..t} - S" by simp
        then have "card ({p..t} - S) = Suc (card ({p + 1..t} - S))"
          unfolding d by (subst card_insert_disjoint) auto
        moreover have "S \<inter> {p..t} = S \<inter> {p + 1..t}" using False ins by auto
        ultimately show "set (skipped_parts (es1 @ es2)) = S \<inter> {p..t}
            \<and> set (put_parts (es1 @ es2)) = {p..t} - S \<and> Suc k2 = card ({p..t} - S)"
          using f e1 d by simp
      qed
      ultimately show ?thesis
        using l ih(1) tr sh so
        by (intro exI [of _ r] exI [of _ w'] exI [of _ "es1 @ es2"] exI [of _ "Suc k2"]) simp
    qed
  qed
qed


lemma reconciled_server: "set (map partNumber (reconciled en ref w)) = server_parts en ref w"
  by (auto simp: reconciled_def server_parts_def getUploadedParts_def split: prod.splits sum.splits)

lemma uploadParts_effects:
  assumes ps: "0 < partSize (heap w ref)" and c: "contentId (heap w ref) = Some cid"
  shows "\<exists>r w' es k. uploadParts en ref ctl w = Some (r, w')
      \<and> trace w' = trace w @ es \<and> shape (\<lambda>r. True) (\<lambda>m. True) es
      \<and> progress_values cid es
          = map (\<lambda>j. progress_percent j (Finite (number_of_parts (heap w ref))))
              [Suc (length (reconciled en ref w)) ..< Suc (length (reconciled en ref w)) + k]
      \<and> set (skipped_parts es) \<subseteq> server_parts en ref w \<inter> {1..number_of_parts (heap w ref)}
      \<and> set (put_parts es) \<subseteq> {1..number_of_parts (heap w ref)} - server_parts en ref w
      \<and> sorted (put_parts es)
      \<and> (r = Inr () \<longrightarrow>
            set (skipped_parts es) = server_parts en ref w \<inter> {1..number_of_parts (heap w ref)}
            \<and> set (put_parts es) = {1..number_of_parts (heap w ref)} - server_parts en ref w
            \<and> k = card ({1..number_of_parts (heap w ref)} - server_parts en ref w))"
proof (cases "cid = []")
  case True
  then have "uploadParts en ref ctl w = Some (Inl (Error Upload_state_has_no_contentId), w)"
    using c by (simp add: uploadParts_def Let_def)
  then show ?thesis
    by (intro exI [of _ "Inl (Error Upload_state_has_no_contentId)"] exI [of _ w]
        exI [of _ "[]"] exI [of _ 0])
       (simp add: progress_values_def skipped_parts_def put_parts_def)
next
  case False
  define st0 where "st0 = heap w ref"
  define t where "t = number_of_parts st0"
  have tot: "total_parts (file_size (source_file st0)) (partSize st0) = Finite t"
    using ps by (simp add: total_parts_def t_def number_of_parts_def st0_def)
  define w1 where "w1 = broadcastLog (Total_parts_to_upload (Finite t)) Info None w"
  have t1: "trace w1 = trace w @ [Broadcast (LOG Info (Total_parts_to_upload (Finite t)) None)]"
    by (simp add: w1_def broadcastLog_def broadcast_def emit_def)
  obtain ups w2 where g: "getUploadedParts en st0 w1 = (ups, w2)"
    by (cases "getUploadedParts en st0 w1")
  have ups: "reconciled en ref w = ups"
    using g tot by (simp add: reconciled_def total_of_def st0_def w1_def)
  define S where "S = set (map partNumber ups)"
  have S: "server_parts en ref w = S"
    using reconciled_server [of en ref w] ups by (simp add: S_def)
  from getUploadedParts_shape [OF g] obtain es2 where
    es2: "trace w2 = trace w1 @ es2" "shape no_put quiet_event es2" by blast
  note q2 = quiet_facts [OF es2(2), of cid]
  from loop_effects [of en ref ctl st0 cid t S 1 "length ups" w2] obtain rl w3 es3 k where
    lp: "uploadParts_loop en ref ctl st0 cid (Finite t) S 1 (length ups) w2 = Some (rl, w3)"
      "trace w3 = trace w2 @ es3" "shape (\<lambda>r. True) (\<lambda>m. True) es3"
      "progress_values cid es3
         = map (\<lambda>j. progress_percent j (Finite t)) [Suc (length ups) ..< Suc (length ups) + k]"
      "set (skipped_parts es3) \<subseteq> S \<inter> {1..t}"
      "set (put_parts es3) \<subseteq> {1..t} - S" "sorted (put_parts es3)"
      "rl = Inr () \<longrightarrow> set (skipped_parts es3) = S \<inter> {1..t}
            \<and> set (put_parts es3) = {1..t} - S \<and> k = card ({1..t} - S)"
    by blast
  define pre where "pre = Broadcast (LOG Info (Total_parts_to_upload (Finite t)) None) # es2"
  have pre: "trace w2 = trace w @ pre" "shape (\<lambda>r. True) (\<lambda>m. True) pre"
      "progress_values cid pre = []" "skipped_parts pre = []" "put_parts pre = []"
    using t1 es2 q2
    by (simp_all add: pre_def progress_values_def skipped_parts_def put_parts_def
       )
  have up: "uploadParts en ref ctl w =
      (case rl of Inl e \<Rightarrow> Some (Inl e, w3) | Inr u \<Rightarrow> Some (completeUpload en ref w3))"
    using c False g lp(1) tot
    by (simp add: uploadParts_def Let_def st0_def [symmetric] w1_def S_def split: sum.splits)
  show ?thesis
  proof (cases rl)
    case (Inl e)
    have "trace w3 = trace w @ (pre @ es3)" using pre lp(2) by simp
    moreover have "shape (\<lambda>r. True) (\<lambda>m. True) (pre @ es3)"
      using pre lp(3) by (simp add: shape_append)
    ultimately show ?thesis
      using up Inl pre lp S ups
      by (intro exI [of _ "Inl e"] exI [of _ w3] exI [of _ "pre @ es3"] exI [of _ k])
         (simp add: t_def st0_def)
  next
    case (Inr u)
    obtain r w4 where cu: "completeUpload en ref w3 = (r, w4)"
      by (cases "completeUpload en ref w3")
    from completeUpload_shape [OF cu] obtain es4 where
      es4: "trace w4 = trace w3 @ es4" "shape no_put quiet_event es4" by blast
    note q4 = quiet_facts [OF es4(2), of cid]
    have "trace w4 = trace w @ (pre @ es3 @ es4)" using pre lp(2) es4 by simp
    moreover have "shape (\<lambda>r. True) (\<lambda>m. True) (pre @ es3 @ es4)"
      using pre lp(3) q4 by (simp add: shape_append)
    ultimately show ?thesis
      using up Inr cu pre lp q4 S ups
      by (intro exI [of _ r] exI [of _ w4] exI [of _ "pre @ es3 @ es4"] exI [of _ k])
         (simp add: t_def st0_def)
  qed
qed


section \<open>Rounding to a double\<close>

lemma round_half_even_of_int [simp]: "round_half_even (of_int k) = k"
  by (simp add: round_half_even_def)

lemma round_half_even_bounds: "\<lfloor>x\<rfloor> \<le> round_half_even x \<and> round_half_even x \<le> \<lfloor>x\<rfloor> + 1"
  by (simp add: round_half_even_def Let_def)

lemma round_half_even_mono: "x \<le> y \<Longrightarrow> round_half_even x \<le> round_half_even y"
proof -
  assume xy: "x \<le> y"
  then have f: "\<lfloor>x\<rfloor> \<le> \<lfloor>y\<rfloor>" by (rule floor_mono)
  show ?thesis
  proof (cases "\<lfloor>x\<rfloor> = \<lfloor>y\<rfloor>")
    case True
    with xy show ?thesis by (auto simp: round_half_even_def Let_def)
  next
    case False
    with f have "\<lfloor>x\<rfloor> + 1 \<le> \<lfloor>y\<rfloor>" by simp
    with round_half_even_bounds [of x] round_half_even_bounds [of y] show ?thesis by linarith
  qed
qed

text \<open>\<open>binade q\<close> is the exponent of the power of two at or below \<open>q\<close>.\<close>

lemma binade_bounds:
  assumes "0 < q"
  shows "2 powi binade q \<le> q \<and> q < 2 powi (binade q + 1)"
proof (cases "1 \<le> q")
  case True
  define m where "m = \<lfloor>q\<rfloor>"
  have m: "1 \<le> m" using True by (simp add: m_def)
  then have b: "2 ^ nat (bitlen m - 1) \<le> m" "m < 2 ^ nat (bitlen m)"
    using bitlen_bounds [of m] by simp_all
  have b1: "1 \<le> bitlen m" using m by (simp add: bitlen_ge_iff_power)
  have e: "binade q = bitlen m - 1" using True by (simp add: binade_def m_def)
  have "2 powi (bitlen m - 1) = (2::real) ^ nat (bitlen m - 1)"
    using b1 by (simp add: power_int_def)
  also have "\<dots> = of_int (2 ^ nat (bitlen m - 1))" by simp
  also have "\<dots> \<le> of_int m" using b(1) by (simp only: of_int_le_iff)
  also have "\<dots> \<le> q" by (simp add: m_def)
  finally have lo: "2 powi (bitlen m - 1) \<le> q" .
  have "q < of_int (m + 1)" by (simp add: m_def)
  also have "\<dots> \<le> of_int (2 ^ nat (bitlen m))"
    using b(2) by (simp only: of_int_le_iff; simp?)
  also have "\<dots> = (2::real) powi (bitlen m)" using b1 by (simp add: power_int_def)
  finally have hi: "q < 2 powi (bitlen m)" .
  from lo hi e show ?thesis by simp
next
  case False
  define r where "r = 1 / q"
  define m where "m = \<lceil>r\<rceil>"
  define k where "k = bitlen (m - 1)"
  have r1: "1 < r" using False assms by (simp add: r_def)
  then have m2: "2 \<le> m" by (simp add: m_def le_ceiling_iff)
  then have b: "2 ^ nat (k - 1) \<le> m - 1" "m - 1 < 2 ^ nat k"
    using bitlen_bounds [of "m - 1"] by (simp_all add: k_def)
  have k1: "1 \<le> k" using m2 by (simp add: k_def bitlen_ge_iff_power)
  have e: "binade q = - k" using False by (simp add: binade_def k_def m_def r_def)
  have "r \<le> of_int m" by (simp add: m_def)
  also have "\<dots> \<le> of_int (2 ^ nat k)"
    using b(2) by (simp only: of_int_le_iff; simp?)
  also have "\<dots> = (2::real) ^ nat k" by simp
  finally have "r \<le> 2 ^ nat k" .
  then have "1 / 2 ^ nat k \<le> 1 / r"
    using r1 by (simp add: frac_le)
  then have lo: "2 powi (- k) \<le> q"
    using k1 assms by (simp add: power_int_def r_def field_simps)
  have "(2::real) ^ nat (k - 1) = of_int (2 ^ nat (k - 1))" by simp
  also have "\<dots> \<le> of_int (m - 1)" using b(1) by (simp only: of_int_le_iff)
  also have "\<dots> < r" unfolding m_def by linarith
  finally have "(2::real) ^ nat (k - 1) < r" .
  then have "1 / r < 1 / 2 ^ nat (k - 1)"
    by (simp add: frac_less2)
  moreover have "(2::real) powi (- k + 1) = 1 / 2 ^ nat (k - 1)"
    using k1 by (cases "k = 1") (simp_all add: power_int_def field_simps nat_diff_distrib)
  ultimately have hi: "q < 2 powi (- k + 1)"
    using assms by (simp add: r_def)
  from lo hi e show ?thesis by simp
qed

text \<open>The double nearest to \<open>q\<close> lies in the binade of \<open>q\<close>, its upper end
  included.\<close>

lemma Number_value_in_binade:
  assumes "0 < q"
  shows "2 powi binade q \<le> Number_value q \<and> Number_value q \<le> 2 powi (binade q + 1)"
proof -
  define e where "e = binade q"
  define u :: real where "u = 2 powi (e - 52)"
  have u: "0 < u" by (simp add: u_def)
  have f: "Number_value q = of_int (round_half_even (q / u)) * u"
    using assms by (simp add: Number_value_def Let_def u_def e_def)
  have lo: "2 powi e = 2 ^ 52 * u" and hi: "2 powi (e + 1) = 2 ^ 53 * u"
    by (simp_all add: u_def power_int_diff power_int_add)
  from binade_bounds [OF assms] have b: "2 ^ 52 * u \<le> q" "q < 2 ^ 53 * u"
    using lo hi by (simp_all add: e_def)
  have "of_int (2 ^ 52) \<le> q / u" using b(1) u by (simp add: field_simps)
  from round_half_even_mono [OF this] have l: "2 ^ 52 \<le> round_half_even (q / u)"
    by (simp only: round_half_even_of_int)
  have "q / u \<le> of_int (2 ^ 53)" using b(2) u by (simp add: field_simps)
  from round_half_even_mono [OF this] have h: "round_half_even (q / u) \<le> 2 ^ 53"
    by (simp only: round_half_even_of_int)
  have "2 ^ 52 * u \<le> of_int (round_half_even (q / u)) * u"
    using l u by (simp add: of_int_le_iff [symmetric] del: of_int_le_iff)
  moreover have "of_int (round_half_even (q / u)) * u \<le> 2 ^ 53 * u"
    using h u by (simp add: of_int_le_iff [symmetric] del: of_int_le_iff)
  ultimately show ?thesis using f lo hi by (simp add: e_def)
qed

lemma Number_value_mono:
  assumes "0 \<le> x" and "x \<le> y"
  shows "Number_value x \<le> Number_value y"
proof (cases "x = 0")
  case True
  show ?thesis
  proof (cases "y = 0")
    case True
    with \<open>x = 0\<close> show ?thesis by simp
  next
    case False
    with assms have "0 < y" by simp
    from Number_value_in_binade [OF this] have "0 \<le> Number_value y"
      by (meson order_trans zero_le_power_int zero_le_numeral)
    with True show ?thesis by (simp add: Number_value_def)
  qed
next
  case False
  with assms have x: "0 < x" and y: "0 < y" by simp_all
  note bx = binade_bounds [OF x] and bdy = binade_bounds [OF y]
  have lt: "(2::real) powi binade x < 2 powi (binade y + 1)"
    using bx bdy assms by linarith
  have le: "binade x \<le> binade y"
  proof (rule ccontr)
    assume "\<not> binade x \<le> binade y"
    then have "binade y + 1 \<le> binade x" by simp
    then have "(2::real) powi (binade y + 1) \<le> 2 powi binade x"
      by (intro power_int_increasing) simp_all
    with lt show False by simp
  qed
  show ?thesis
  proof (cases "binade x = binade y")
    case True
    define u :: real where "u = 2 powi (binade y - 52)"
    have u: "0 < u" by (simp add: u_def)
    have "x / u \<le> y / u" using assms u by (simp add: divide_right_mono)
    from round_half_even_mono [OF this]
    have "of_int (round_half_even (x / u)) * u \<le> of_int (round_half_even (y / u)) * u"
      using u by simp
    then show ?thesis using x y True by (simp add: Number_value_def Let_def u_def)
  next
    case False
    with le have "binade x + 1 \<le> binade y" by simp
    then have "(2::real) powi (binade x + 1) \<le> 2 powi binade y"
      by (intro power_int_increasing) simp_all
    with Number_value_in_binade [OF x] Number_value_in_binade [OF y] show ?thesis by linarith
  qed
qed

lemma Number_value_nonneg: "0 \<le> x \<Longrightarrow> 0 \<le> Number_value x"
  using Number_value_mono [of 0 x] by (simp add: Number_value_def)

lemma Math_round_mono: "x \<le> y \<Longrightarrow> Math_round x \<le> Math_round y"
  by (simp add: Math_round_def floor_mono)

lemma Number_value_1: "Number_value 1 = 1"
  by (simp add: Number_value_def binade_def round_half_even_def compute_bitlen Let_def)

lemma Number_value_100: "Number_value 100 = 100"
  by (simp add: Number_value_def binade_def round_half_even_def compute_bitlen Let_def)

text \<open>The exact quotient would give 58 for 23 parts of 40; the double product
  is just below 57.5.\<close>

lemma progress_23_of_40: "progress_percent 23 (Finite 40) = 57"
  by (simp add: progress_percent.simps Number_value_def binade_def round_half_even_def
      Math_round_def compute_bitlen Let_def)

lemma progress_of_3:
  "progress_percent (Suc 0) (Finite 3) = 33" "progress_percent (Suc (Suc 0)) (Finite 3) = 67"
  "progress_percent (Suc (Suc (Suc 0))) (Finite 3) = 100"
  by (simp_all add: progress_percent.simps Number_value_def binade_def round_half_even_def
      Math_round_def compute_bitlen Let_def)

lemma progress_100: "0 < t \<Longrightarrow> progress_percent t (Finite t) = 100"
  by (simp add: progress_percent.simps Number_value_1 Number_value_100 Math_round_def)

lemma progress_mono: "i \<le> j \<Longrightarrow> progress_percent i (Finite t) \<le> progress_percent j (Finite t)"
proof (cases "t = 0")
  case True
  then show ?thesis by (simp add: progress_percent.simps)
next
  case False
  assume ij: "i \<le> j"
  have "real i / real t \<le> real j / real t"
    using ij by (simp add: divide_right_mono)
  then have "Number_value (real i / real t) \<le> Number_value (real j / real t)"
    by (intro Number_value_mono) simp_all
  then have "Number_value (real i / real t) * 100 \<le> Number_value (real j / real t) * 100"
    by simp
  moreover have "0 \<le> Number_value (real i / real t) * 100"
    using Number_value_nonneg [of "real i / real t"] by simp
  ultimately have "Number_value (Number_value (real i / real t) * 100)
      \<le> Number_value (Number_value (real j / real t) * 100)"
    by (intro Number_value_mono)
  then show ?thesis
    using False by (simp add: progress_percent.simps nat_mono Math_round_mono)
qed

lemma sorted_progress:
  "sorted (map (\<lambda>j. progress_percent j (Finite t)) [a ..< b])"
  by (simp add: sorted_wrt_map progress_mono sorted_wrt_mono_rel [OF _ sorted_upt [of a b]])

lemma run_listed:
  "map_option (\<lambda>(r, w'). (r, skipped_parts (trace w'), put_parts (trace w')))
       (uploadParts listed_env 0 1 resumed_world) = Some (Inr (), [2], [1, 3])"
  by (simp add: run_defs)

lemma run_quiet:
  "map_option (\<lambda>(r, w'). (r, progress_values ''c1'' (trace w')))
       (uploadParts quiet_env 0 1 active_world) = Some (Inr (), [33, 67, 100])"
  by (simp add: run_defs progress_of_3)

section \<open>Pause and cancel of an upload that is not active\<close>

text \<open>
  Claim C10. For a content id that is not in the registry \<open>activeUploads\<close>,
  \<open>handlePause\<close> and \<open>handleCancel\<close> return normally and leave the whole
  state of the worker as it was: no abort controller is aborted, the two
  object stores are unchanged, no request is sent and no message is broadcast
  (the effects so far are the same).
\<close>

theorem inactive_pause_cancel_noop:
  assumes "activeUploads w cid = None"
  shows "handlePause en cid w = (Inr (), w) \<and> handleCancel en cid w = (Inr (), w)"
  using assms by (simp add: handlePause_def handleCancel_def)

theorem inactive_pause_cancel_noop_witness:
  "activeUploads (stored_world Paused) ''c1'' = None
   \<and> handlePause quiet_env ''c1'' (stored_world Paused) = (Inr (), stored_world Paused)
   \<and> handleCancel quiet_env ''c1'' (stored_world Paused) = (Inr (), stored_world Paused)"
proof -
  have h: "activeUploads (stored_world Paused) ''c1'' = None"
    by (simp add: stored_world_def empty_world_def)
  show ?thesis
    using h inactive_pause_cancel_noop [OF h, of quiet_env] by simp
qed

section \<open>Resuming an upload that is not paused\<close>

text \<open>
  Claim C5, as amended. \<open>handleResume\<close> resumes only an upload whose persisted
  status is \<open>paused\<close>. For a persisted upload with any other status (\<open>error\<close>
  among them), and a storage that answers the load, the handler returns
  normally after three log messages, the last one the error-level
  "No paused upload found": the persisted record, the registry and the state
  objects stay as they were, and no request is sent.
\<close>

theorem resume_needs_paused:
  assumes "status st \<noteq> Paused"
    and "uploads w cid = Some st"
    and "storage_failure en (n_db w) = None"
  shows "handleResume en cid w =
    Some (Inr (), w\<lparr>n_db := n_db w + 1,
       trace := trace w @ [Broadcast (LOG Info (Loading_upload_state cid) None),
                           Broadcast (LOG Info (Successfully_loaded cid) None),
                           Broadcast (LOG Err (No_paused_upload_found cid) None)]\<rparr>)"
  using assms
  by (simp add: handleResume_def loadUploadState_def db_request_def broadcastLog_def
      broadcast_def emit_def Let_def)

theorem resume_needs_paused_witness:
  "status (sample_state Error_status) \<noteq> Paused
   \<and> uploads (stored_world Error_status) ''c1'' = Some (sample_state Error_status)
   \<and> storage_failure quiet_env (n_db (stored_world Error_status)) = None
   \<and> handleResume quiet_env ''c1'' (stored_world Error_status) =
       Some (Inr (), (stored_world Error_status)\<lparr>n_db := n_db (stored_world Error_status) + 1,
         trace := trace (stored_world Error_status)
           @ [Broadcast (LOG Info (Loading_upload_state ''c1'') None),
              Broadcast (LOG Info (Successfully_loaded ''c1'') None),
              Broadcast (LOG Err (No_paused_upload_found ''c1'') None)]\<rparr>)"
proof -
  have a: "status (sample_state Error_status) \<noteq> Paused"
    by (simp add: sample_state_def)
  have b: "uploads (stored_world Error_status) ''c1'' = Some (sample_state Error_status)"
    by (simp add: stored_world_def empty_world_def)
  have c: "storage_failure quiet_env (n_db (stored_world Error_status)) = None"
    by (simp add: quiet_env_def)
  show ?thesis
    using a b c resume_needs_paused [OF a b c] by simp
qed

text \<open>
  Claim C5 as stated fails: after \<open>RESUME_UPLOAD\<close> for the persisted upload
  \<open>c1\<close> with status \<open>error\<close>, on a network and a storage without failures,
  the persisted status is still \<open>error\<close> and no request has been sent.
\<close>

theorem resume_error_upload_counterexample:
  "(case handleResume quiet_env ''c1'' (stored_world Error_status) of
      Some (Inr u, w') \<Rightarrow>
        map_option status (uploads w' ''c1'') = Some Error_status \<and> n_fetch w' = 0
    | _ \<Rightarrow> False)"
  by (simp add: eval_defs)

section \<open>Cancelling an upload\<close>




section \<open>Cancellation and retry of a part\<close>

text \<open>
  Claim C2 does not hold of the code. When the cancel token of the upload
  fires while the PUT of part 1 is in flight, \<open>fetchWithTimeout\<close> turns the
  \<open>AbortError\<close> into the same \<open>RetryableError\<close> as a timeout, and the part
  driver \<open>uploadPart\<close> announces three retries of the part (with delays 1000,
  2000 and 4000) before it gives up with that \<open>RetryableError\<close>.
\<close>

theorem cancel_token_abort_is_retried:
  "fst (fetchWithTimeout token_env (PUT_part 1 ''url'' 1) (put_reply token_env) (Some 7)
          (empty_world\<lparr>n_fetch := 1\<rparr>)) = Inl (RetryableError Request_timed_out)
   \<and> fst (uploadPart token_env ''c1'' ''k1'' ''u1'' 1 1 (Some 7) 0 empty_world)
       = Inl (RetryableError Request_timed_out)
   \<and> filter (\<lambda>e. case e of Broadcast (RETRYING_CHUNK c p a m t d) \<Rightarrow> True | _ \<Rightarrow> False)
        (trace (snd (uploadPart token_env ''c1'' ''k1'' ''u1'' 1 1 (Some 7) 0 empty_world)))
      = [Broadcast (RETRYING_CHUNK ''c1'' 1 1 3 Request_timed_out 1000),
         Broadcast (RETRYING_CHUNK ''c1'' 1 2 3 Request_timed_out 2000),
         Broadcast (RETRYING_CHUNK ''c1'' 1 3 3 Request_timed_out 4000)]"
  by (simp add: eval_defs uploadPart.simps fetchWithRetry.simps match_here_def
      replace_s3_host_def)

section \<open>The content id of a new upload\<close>

text \<open>
  Claim C4 does not hold of the code. \<open>initializeNewUpload\<close> draws a content
  id from \<open>crypto.randomUUID()\<close> and broadcasts \<open>INITIATE_UPLOAD_RESPONSE\<close>
  with it, while the new \<open>UploadState\<close> gets the content id of the server:
  here the event carries \<open>local-uuid\<close> and the state \<open>c1\<close>.
\<close>

theorem initiate_event_carries_local_uuid:
  "(case initializeNewUpload quiet_env \<lparr>file_name = ''f'', file_size = 3\<rparr> 0 ''video/mp4'' None
           empty_world of
      (Inr st, w) \<Rightarrow>
        contentId st = Some ''c1''
        \<and> filter (\<lambda>e. case e of Broadcast (INITIATE_UPLOAD_RESPONSE c u k) \<Rightarrow> True | _ \<Rightarrow> False)
             (trace w)
           = [Broadcast (INITIATE_UPLOAD_RESPONSE ''local-uuid'' ''u1'' ''k1'')]
    | (Inl e, w) \<Rightarrow> False)"
  by (simp add: eval_defs fetchWithRetry.simps)

section \<open>Retries of a part\<close>


section \<open>Transfer acceleration\<close>




section \<open>Reconciling with the server\<close>

text \<open>
  Claim C1, as amended. In every run of \<open>uploadParts\<close> with a part size
  other than 0, the run returns, and the part numbers treated as complete
  are those of the server's \<open>listUploadedParts\<close> answer alone, and none
  when that call fails; the local \<open>parts\<close> list is not consulted. Every
  part the run skips is one the server listed, no part the server listed is
  PUT, and in a run that ends normally the skipped parts are exactly the
  server's parts within \<open>1..totalParts\<close> and the parts PUT are exactly the
  others.
\<close>

theorem skipped_parts_are_server_parts:
  assumes "0 < partSize (heap w ref)"
  shows "\<exists>r w'. uploadParts en ref ctl w = Some (r, w')
     \<and> set (skipped_parts (effects_since w w')) \<subseteq> server_parts en ref w
     \<and> set (put_parts (effects_since w w')) \<inter> server_parts en ref w = {}
     \<and> (r = Inr () \<longrightarrow>
          set (skipped_parts (effects_since w w'))
            = server_parts en ref w \<inter> {1..number_of_parts (heap w ref)}
          \<and> set (put_parts (effects_since w w'))
            = {1..number_of_parts (heap w ref)} - server_parts en ref w)"
proof (cases "contentId (heap w ref)")
  case None
  then have "uploadParts en ref ctl w = Some (Inl (Error Upload_state_has_no_contentId), w)"
    by (simp add: uploadParts_def Let_def)
  then show ?thesis
    by (simp add: effects_since_def skipped_parts_def put_parts_def)
next
  case (Some cid)
  from uploadParts_effects [OF assms Some, of en ctl] obtain r w' es k where
    "uploadParts en ref ctl w = Some (r, w')" "trace w' = trace w @ es"
    "set (skipped_parts es) \<subseteq> server_parts en ref w \<inter> {1..number_of_parts (heap w ref)}"
    "set (put_parts es) \<subseteq> {1..number_of_parts (heap w ref)} - server_parts en ref w"
    "r = Inr () \<longrightarrow>
       set (skipped_parts es) = server_parts en ref w \<inter> {1..number_of_parts (heap w ref)}
       \<and> set (put_parts es) = {1..number_of_parts (heap w ref)} - server_parts en ref w
       \<and> k = card ({1..number_of_parts (heap w ref)} - server_parts en ref w)"
    by blast
  then show ?thesis
    by (intro exI [of _ r] exI [of _ w']) (auto simp: ext_eq)
qed

theorem skipped_parts_are_server_parts_witness:
  "0 < partSize (heap resumed_world 0)
   \<and> uploadParts listed_env 0 1 resumed_world \<noteq> None
   \<and> fst (the (uploadParts listed_env 0 1 resumed_world)) = Inr ()
   \<and> server_parts listed_env 0 resumed_world = {2}
   \<and> number_of_parts (heap resumed_world 0) = 3
   \<and> set (skipped_parts (effects_since resumed_world
              (snd (the (uploadParts listed_env 0 1 resumed_world))))) = {2} \<inter> {1..3}
   \<and> set (put_parts (effects_since resumed_world
              (snd (the (uploadParts listed_env 0 1 resumed_world))))) = {1..3} - {2}"
proof -
  have h: "0 < partSize (heap resumed_world 0)"
    by (simp add: run_defs)
  have s: "server_parts listed_env 0 resumed_world = {2}"
    by (simp add: server_parts_def total_of_def run_defs)
  have n: "number_of_parts (heap resumed_world 0) = 3"
    by (simp add: number_of_parts_def run_defs)
  have r: "map_option fst (uploadParts listed_env 0 1 resumed_world) = Some (Inr ())"
    using run_listed by (auto simp: map_option_case split: option.splits)
  from skipped_parts_are_server_parts [OF h, of listed_env 1] r s n h show ?thesis
    by auto
qed

text \<open>
  Claim C1 as stated fails. Part 1 is in the local \<open>parts\<close> list of the
  upload. With a server that lists no parts, and with a server whose
  list-parts call fails, the run skips nothing and PUTs the parts 1, 2 and 3:
  neither the union with the local list nor the fallback to it takes place.
\<close>

theorem local_parts_not_skipped_counterexample:
  "partNumber ` set (parts (heap resumed_world 0)) = {1}
   \<and> map_option (\<lambda>(r, w'). (r, skipped_parts (trace w'), put_parts (trace w')))
       (uploadParts quiet_env 0 1 resumed_world) = Some (Inr (), [], [1, 2, 3])
   \<and> map_option (\<lambda>(r, w'). (r, skipped_parts (trace w'), put_parts (trace w')))
       (uploadParts list_fails_env 0 1 resumed_world) = Some (Inr (), [], [1, 2, 3])"
  by (simp add: run_defs)

section \<open>Part PUTs in flight\<close>




section \<open>Progress of an upload\<close>

text \<open>
  Claim C6, as amended. Within one run of \<open>uploadParts\<close> (one start or one
  resume of an upload, with a part size other than 0) the \<open>UPLOAD_PROGRESS\<close>
  values of the upload are non-decreasing. If the run ends normally (with
  \<open>UPLOAD_COMPLETE\<close>) after at least one \<open>UPLOAD_PROGRESS\<close>, and the part
  numbers the server listed at the reconcile were distinct and within
  \<open>1..totalParts\<close>, the last value is 100. The values are those of
  \<open>Math.round((completedParts / totalParts) * 100)\<close> in doubles, so that 23
  parts of 40 give 57.
\<close>

theorem progress_monotonic_within_run:
  assumes "0 < partSize (heap w ref)" and "contentId (heap w ref) = Some cid"
  shows "\<exists>r w'. uploadParts en ref ctl w = Some (r, w')
     \<and> sorted (progress_values cid (effects_since w w'))
     \<and> (r = Inr () \<and> progress_values cid (effects_since w w') \<noteq> []
          \<and> distinct (map partNumber (reconciled en ref w))
          \<and> server_parts en ref w \<subseteq> {1..number_of_parts (heap w ref)}
        \<longrightarrow> last (progress_values cid (effects_since w w')) = 100)"
proof -
  define t where "t = number_of_parts (heap w ref)"
  define c0 where "c0 = length (reconciled en ref w)"
  define S where "S = server_parts en ref w"
  from uploadParts_effects [OF assms, of en ctl] obtain r w' es k where
    u: "uploadParts en ref ctl w = Some (r, w')" "trace w' = trace w @ es"
    "progress_values cid es = map (\<lambda>j. progress_percent j (Finite t)) [Suc c0 ..< Suc c0 + k]"
    "r = Inr () \<longrightarrow> k = card ({1..t} - S)"
    unfolding t_def c0_def S_def by blast
  have es: "effects_since w w' = es" using u(2) by (rule ext_eq)
  have "sorted (progress_values cid es)"
    unfolding u(3) by (rule sorted_progress)
  moreover have "last (progress_values cid es) = 100"
    if a: "r = Inr ()" "progress_values cid es \<noteq> []"
      "distinct (map partNumber (reconciled en ref w))" "S \<subseteq> {1..t}"
  proof -
    have k0: "0 < k"
    proof (rule ccontr)
      assume "\<not> 0 < k"
      then have "k = 0" by simp
      with u(3) a(2) show False by simp
    qed
    have k: "k = card ({1..t} - S)" "0 < k" using a(1) u(4) k0 by auto
    have "card S = c0"
      using distinct_card [OF a(3)] reconciled_server [of en ref w]
      by (simp add: S_def c0_def)
    moreover have "card ({1..t} - S) = card {1..t} - card S"
      using a(4) by (intro card_Diff_subset) (auto intro: finite_subset)
    moreover have "card S \<le> t" using card_mono [OF _ a(4)] by simp
    ultimately have ck: "c0 + k = t" using k by simp
    then have "0 < t" using k by simp
    have "last (progress_values cid es) = progress_percent (c0 + k) (Finite t)"
      unfolding u(3) using k(2) by (simp add: last_map)
    with ck progress_100 [OF \<open>0 < t\<close>] show ?thesis by simp
  qed
  ultimately show ?thesis
    using u(1) es by (intro exI [of _ r] exI [of _ w']) (auto simp: t_def S_def)
qed

theorem progress_monotonic_within_run_witness:
  "0 < partSize (heap active_world 0)
   \<and> contentId (heap active_world 0) = Some ''c1''
   \<and> uploadParts quiet_env 0 1 active_world \<noteq> None
   \<and> fst (the (uploadParts quiet_env 0 1 active_world)) = Inr ()
   \<and> progress_values ''c1'' (effects_since active_world (snd (the (uploadParts quiet_env 0 1 active_world))))
       = [33, 67, 100]
   \<and> distinct (map partNumber (reconciled quiet_env 0 active_world))
   \<and> server_parts quiet_env 0 active_world \<subseteq> {1..number_of_parts (heap active_world 0)}
   \<and> sorted (progress_values ''c1'' (effects_since active_world (snd (the (uploadParts quiet_env 0 1 active_world)))))
   \<and> last (progress_values ''c1'' (effects_since active_world (snd (the (uploadParts quiet_env 0 1 active_world))))) = 100"
proof -
  have h: "0 < partSize (heap active_world 0)" "contentId (heap active_world 0) = Some ''c1''"
    by (simp_all add: run_defs)
  have s: "server_parts quiet_env 0 active_world = {}"
    by (simp add: server_parts_def total_of_def run_defs)
  have d: "reconciled quiet_env 0 active_world = []"
    by (simp add: reconciled_def total_of_def run_defs)
  have t: "trace active_world = []" by (simp add: run_defs)
  from progress_monotonic_within_run [OF h, of quiet_env 1] run_quiet h s d t show ?thesis
    by (auto simp: effects_since_def)
qed

text \<open>
  Claim C6 as stated fails. A file of three parts is started and all parts
  are uploaded (progress 33, 67, 100), but the server refuses to complete;
  the upload is paused and resumed, the list-parts call of the resume fails,
  and the parts are uploaded again: the progress values of the upload are
  33, 67, 100, 33, 67, 100, and no \<open>UPLOAD_COMPLETE\<close> is ever broadcast.
\<close>

theorem progress_falls_back_counterexample:
  "map_option (\<lambda>(r, w'). (progress_values ''c1'' (trace w'), filter (upload_complete ''c1'') (trace w')))
       (start_pause_resume flaky_env) = Some ([33, 67, 100, 33, 67, 100], [])"
  by (simp add: run_defs progress_of_3)


end
